theory Spec2Isabelle
  imports Main "HOL-Library.Sublist"
begin

section \<open>Python string operations used by the server\<close>

text \<open>
  Text is modelled as \<open>string\<close>: a list of code points below 256. The operations below
  are the ones \<open>server.py\<close> applies to \<open>str\<close> values: \<open>in\<close>, \<open>split\<close> (with and
  without \<open>maxsplit\<close>), \<open>startswith\<close> (\<open>prefix\<close>), \<open>endswith\<close> (\<open>suffix\<close>),
  \<open>lower\<close>, \<open>encode('utf-8')\<close> and the decimal rendering of an integer in an f-string.
\<close>

definition CR :: char where "CR = CHR 0x0D"
definition LF :: char where "LF = CHR 0x0A"
definition DQ :: char where "DQ = CHR 0x22"

definition CRLF :: string where "CRLF = [CR, LF]"
definition CRLF2 :: string where "CRLF2 = [CR, LF, CR, LF]"

text \<open>\<open>sub in s\<close>: \<open>sub\<close> occurs in \<open>s\<close> as a contiguous substring.\<close>

fun contains :: "string \<Rightarrow> string \<Rightarrow> bool" where
  "contains sub [] = (sub = [])"
| "contains sub (c # cs) = (prefix sub (c # cs) \<or> contains sub cs)"

text \<open>
  \<open>s.partition(sep)\<close> restricted to the case that matters for \<open>split\<close>: the text before
  and after the leftmost occurrence of \<open>sep\<close>, or \<open>None\<close> when \<open>sep\<close> does not occur.
\<close>

fun partition_sep :: "string \<Rightarrow> string \<Rightarrow> (string \<times> string) option" where
  "partition_sep sep [] = (if sep = [] then Some ([], []) else None)"
| "partition_sep sep (c # cs) =
     (if prefix sep (c # cs) then Some ([], drop (length sep) (c # cs))
      else map_option (\<lambda>(a, b). (c # a, b)) (partition_sep sep cs))"

text \<open>
  \<open>s.split(sep, maxsplit)\<close>: at most \<open>maxsplit\<close> cuts, leftmost first. Python raises
  \<open>ValueError\<close> for an empty separator; every call site in the server passes a non-empty
  literal.
\<close>

fun split_max :: "string \<Rightarrow> nat \<Rightarrow> string \<Rightarrow> string list" where
  "split_max sep 0 s = [s]"
| "split_max sep (Suc n) s =
     (case partition_sep sep s of
        None \<Rightarrow> [s]
      | Some (a, b) \<Rightarrow> a # split_max sep n b)"

text \<open>
  \<open>s.split(sep)\<close> with no limit. A non-empty separator can be cut out at most
  \<open>length s\<close> times, so that many cuts are all of them (lemma \<open>split_max_enough\<close>).
\<close>

definition split_all :: "string \<Rightarrow> string \<Rightarrow> string list" where
  "split_all sep s = split_max sep (length s) s"

text \<open>
  \<open>str.lower()\<close> on code points below 256: \<open>A\<close>-\<open>Z\<close> and the upper-case letters of
  the Latin-1 block (U+00C0 to U+00DE except the multiplication sign U+00D7) move up by 32.
\<close>

definition lower_char :: "char \<Rightarrow> char" where
  "lower_char c =
     (let n = (of_char c :: nat)
      in if (65 \<le> n \<and> n \<le> 90) \<or> (192 \<le> n \<and> n \<le> 214) \<or> (216 \<le> n \<and> n \<le> 222)
         then char_of (n + 32) else c)"

definition lower :: "string \<Rightarrow> string" where
  "lower s = map lower_char s"

text \<open>\<open>str.encode('utf-8')\<close> on code points below 256: one byte below 128, two bytes above.\<close>

definition encode_char :: "char \<Rightarrow> string" where
  "encode_char c =
     (let n = (of_char c :: nat)
      in if n < 128 then [c] else [char_of (192 + n div 64), char_of (128 + n mod 64)])"

definition encode_utf8 :: "string \<Rightarrow> string" where
  "encode_utf8 s = concat (map encode_char s)"

text \<open>The decimal digits of a natural number, as \<open>f"{n}"\<close> prints them.\<close>

definition digit_char :: "nat \<Rightarrow> char" where
  "digit_char d = char_of (48 + d)"

function show_nat :: "nat \<Rightarrow> string" where
  "show_nat n = (if n < 10 then [digit_char n] else show_nat (n div 10) @ [digit_char (n mod 10)])"
  by pat_completeness auto
termination
  by (relation "measure id") auto

declare show_nat.simps [simp del]

text \<open>
  \<open>json.dumps\<close> of a \<open>dict\<close> whose keys and values are \<open>str\<close>, with the default
  separators and \<open>ensure_ascii\<close>: every character outside the printable ASCII range, the
  double quote and the backslash are escaped.
\<close>

definition hex_digit :: "nat \<Rightarrow> char" where
  "hex_digit d = ''0123456789abcdef'' ! (d mod 16)"

definition json_escape_char :: "char \<Rightarrow> string" where
  "json_escape_char c =
     (let n = (of_char c :: nat)
      in if c = DQ then [CHR 0x5C, DQ]
         else if n = 92 then [CHR 0x5C, CHR 0x5C]
         else if n = 10 then [CHR 0x5C, CHR ''n'']
         else if n = 13 then [CHR 0x5C, CHR ''r'']
         else if n = 9 then [CHR 0x5C, CHR ''t'']
         else if n = 8 then [CHR 0x5C, CHR ''b'']
         else if n = 12 then [CHR 0x5C, CHR ''f'']
         else if 32 \<le> n \<and> n \<le> 126 then [c]
         else [CHR 0x5C, CHR ''u'', CHR ''0'', CHR ''0'', hex_digit (n div 16), hex_digit n])"

definition json_quote :: "string \<Rightarrow> string" where
  "json_quote s = [DQ] @ concat (map json_escape_char s) @ [DQ]"

fun json_members :: "(string \<times> string) list \<Rightarrow> string" where
  "json_members [] = []"
| "json_members [(k, v)] = json_quote k @ '': '' @ json_quote v"
| "json_members ((k, v) # kvs) = json_quote k @ '': '' @ json_quote v @ '', '' @ json_members kvs"

definition json_dumps_dict :: "(string \<times> string) list \<Rightarrow> string" where
  "json_dumps_dict kvs = ''{'' @ json_members kvs @ ''}''"

section \<open>The environment of the server\<close>

text \<open>
  Exceptions are values. Only the classes the server can meet are listed:
  \<open>socket.timeout\<close>, any other \<open>OSError\<close> of a socket or a file, the
  \<open>UnicodeDecodeError\<close> of \<open>decode\<close>, the \<open>ValueError\<close> of a tuple unpacking, the
  \<open>IndexError\<close> of a subscript, the \<open>FileNotFoundError\<close> of \<open>open\<close>, the
  \<open>RecursionError\<close> of \<open>json.loads\<close> on deeply nested input, and \<open>queue.Full\<close>.
\<close>

datatype exn =
  SocketTimeout | OSError | UnicodeDecodeError | ValueError | IndexError
  | FileNotFoundError | RecursionError | QueueFull

text \<open>What one \<open>client_socket.recv(n).decode('utf-8')\<close> can come to.\<close>

datatype recv_outcome = Recv_timeout | Recv_oserror | Recv_undecodable | Recv_text string

text \<open>What one \<open>client_socket.sendall(data)\<close> can come to.\<close>

datatype send_outcome = Send_ok | Send_timeout | Send_oserror

text \<open>What \<open>json.loads\<close> can come to; the parsed value is of an abstract type.\<close>

datatype 'j json_outcome = Json_value 'j | Json_decode_error | Json_recursion_error

text \<open>
  A path of the file system: no file, a path on which \<open>open\<close> raises another exception
  than \<open>FileNotFoundError\<close> (a directory, a path through a regular file, no permission,
  a NUL character), or a file with its bytes. The server catches all the exceptions of the
  second kind with the same \<open>except Exception\<close> clauses, so one value, \<open>OSError\<close>,
  stands for them.
\<close>

datatype fs_entry = Missing | Denied | Content string

text \<open>The calls the server makes on the client socket and on the file system, in order.\<close>

datatype event =
  Ev_settimeout nat | Ev_recv nat | Ev_send string
  | Ev_open_rb string | Ev_open_w string | Ev_close

text \<open>
  The part of the world the server does not change: the globals \<open>HOST\<close> and \<open>PORT\<close>,
  the answers of the peer, of the clock and of the random generator (the answer to the
  \<open>k\<close>-th question asked is the oracle's value at \<open>k\<close>), and the \<open>json\<close> library.
  \<open>date_oracle\<close> stands for \<open>time.strftime("%a, %d %b %Y %H:%M:%S GMT", time.gmtime())\<close>,
  \<open>stamp_oracle\<close> for \<open>time.strftime("%Y%m%d_%H%M%S")\<close>, \<open>rand_oracle k i\<close> for the
  \<open>i\<close>-th draw of one \<open>random.choices\<close> call, \<open>json_dump\<close> for the text
  \<open>json.dump(_, f, indent=4)\<close> writes.
\<close>

record 'j env =
  HOST :: string
  PORT :: nat
  recv_oracle :: "nat \<Rightarrow> recv_outcome"
  send_oracle :: "nat \<Rightarrow> send_outcome"
  date_oracle :: "nat \<Rightarrow> string"
  stamp_oracle :: "nat \<Rightarrow> string"
  rand_oracle :: "nat \<Rightarrow> nat \<Rightarrow> nat"
  json_loads :: "string \<Rightarrow> 'j json_outcome"
  json_dump :: "'j \<Rightarrow> string"

text \<open>
  The part the server changes: the number of questions asked of the oracles so far, the file
  system, and the calls made so far.
\<close>

record state =
  tick :: nat
  files :: "string \<Rightarrow> fs_entry"
  trace :: "event list"

type_synonym 'a result = "(exn + 'a) \<times> state"

definition emit :: "event \<Rightarrow> state \<Rightarrow> state" where
  "emit e s = s\<lparr>trace := trace s @ [e]\<rparr>"

definition advance :: "state \<Rightarrow> state" where
  "advance s = s\<lparr>tick := Suc (tick s)\<rparr>"

definition settimeout :: "nat \<Rightarrow> state \<Rightarrow> state" where
  "settimeout secs s = emit (Ev_settimeout secs) s"

definition recv_decode :: "'j env \<Rightarrow> nat \<Rightarrow> state \<Rightarrow> string result" where
  "recv_decode env bufsize s =
     (case recv_oracle env (tick s) of
        Recv_timeout \<Rightarrow> Inl SocketTimeout
      | Recv_oserror \<Rightarrow> Inl OSError
      | Recv_undecodable \<Rightarrow> Inl UnicodeDecodeError
      | Recv_text request_data \<Rightarrow> Inr request_data,
      advance (emit (Ev_recv bufsize) s))"

definition sendall :: "'j env \<Rightarrow> string \<Rightarrow> state \<Rightarrow> unit result" where
  "sendall env data s =
     (case send_oracle env (tick s) of
        Send_ok \<Rightarrow> Inr ()
      | Send_timeout \<Rightarrow> Inl SocketTimeout
      | Send_oserror \<Rightarrow> Inl OSError,
      advance (emit (Ev_send data) s))"

definition close :: "state \<Rightarrow> state" where
  "close s = emit Ev_close s"

text \<open>\<open>with open(filepath, 'rb') as f: content = f.read()\<close>\<close>

definition open_rb :: "string \<Rightarrow> state \<Rightarrow> string result" where
  "open_rb filepath s =
     (case files s filepath of
        Missing \<Rightarrow> Inl FileNotFoundError
      | Denied \<Rightarrow> Inl OSError
      | Content content \<Rightarrow> Inr content,
      emit (Ev_open_rb filepath) s)"

text \<open>\<open>with open(filepath, 'w') as f: json.dump(json_data, f, indent=4)\<close>\<close>

definition open_w_dump :: "'j env \<Rightarrow> string \<Rightarrow> 'j \<Rightarrow> state \<Rightarrow> unit result" where
  "open_w_dump env filepath json_data s =
     (if files s filepath = Denied then (Inl OSError, emit (Ev_open_w filepath) s)
      else (Inr (),
            (emit (Ev_open_w filepath) s)
              \<lparr>files := (files s)(filepath := Content (json_dump env json_data))\<rparr>))"

definition strftime_date :: "'j env \<Rightarrow> state \<Rightarrow> string \<times> state" where
  "strftime_date env s = (date_oracle env (tick s), advance s)"

definition strftime_stamp :: "'j env \<Rightarrow> state \<Rightarrow> string \<times> state" where
  "strftime_stamp env s = (stamp_oracle env (tick s), advance s)"

text \<open>\<open>''.join(random.choices(population, k=k))\<close>\<close>

definition random_choices :: "'j env \<Rightarrow> string \<Rightarrow> nat \<Rightarrow> state \<Rightarrow> string \<times> state" where
  "random_choices env population k s =
     (map (\<lambda>i. population ! (rand_oracle env (tick s) i mod length population)) [0..<k],
      advance s)"

definition ascii_lowercase :: string where
  "ascii_lowercase = ''abcdefghijklmnopqrstuvwxyz''"

definition digits :: string where
  "digits = ''0123456789''"

section \<open>The server\<close>

definition MAX_QUEUE_SIZE :: nat where
  "MAX_QUEUE_SIZE = 50"

text \<open>
  The two \<open>Connection\<close> variants that end every header block. The source writes this
  \<open>if keep_alive\<close> three times, in \<open>send_error\<close>, \<open>serve_get_request\<close> and
  \<open>serve_post_request\<close>.
\<close>

definition connection_headers :: "bool \<Rightarrow> string" where
  "connection_headers keep_alive =
     (if keep_alive
      then ''Connection: keep-alive'' @ CRLF @ ''Keep-Alive: timeout=30, max=100'' @ CRLF2
      else ''Connection: close'' @ CRLF2)"

text \<open>The bytes \<open>send_error\<close> passes to \<open>sendall\<close>.\<close>

definition error_response :: "nat \<Rightarrow> string \<Rightarrow> bool \<Rightarrow> (string \<times> string) list \<Rightarrow> string" where
  "error_response status_code status_message keep_alive extra_headers =
     (let response_body =
            ''<html><body><h1>'' @ show_nat status_code @ '' '' @ status_message
            @ ''</h1></body></html>'';
          response_headers =
            ''HTTP/1.1 '' @ show_nat status_code @ '' '' @ status_message @ CRLF
            @ ''Content-Type: text/html; charset=utf-8'' @ CRLF
            @ ''Content-Length: '' @ show_nat (length response_body) @ CRLF
            @ concat (map (\<lambda>(key, value). key @ '': '' @ value @ CRLF) extra_headers)
            @ connection_headers keep_alive
      in encode_utf8 response_headers @ encode_utf8 response_body)"

definition send_error ::
  "'j env \<Rightarrow> nat \<Rightarrow> string \<Rightarrow> bool \<Rightarrow> (string \<times> string) list \<Rightarrow> state \<Rightarrow> unit result" where
  "send_error env status_code status_message keep_alive extra_headers s =
     sendall env (error_response status_code status_message keep_alive extra_headers) s"

text \<open>The \<open>if\<close>/\<open>elif\<close>/\<open>else\<close> on the file extension; \<open>None\<close> is the \<open>else\<close> branch.\<close>

definition content_type_of :: "string \<Rightarrow> string option" where
  "content_type_of filepath =
     (if suffix ''.html'' filepath then Some ''text/html; charset=utf-8''
      else if suffix ''.txt'' filepath \<or> suffix ''.png'' filepath
              \<or> suffix ''.jpg'' filepath \<or> suffix ''.jpeg'' filepath
      then Some ''application/octet-stream''
      else None)"

text \<open>The bytes of a 200 response (lines 194 to 213).\<close>

definition get_response :: "string \<Rightarrow> string \<Rightarrow> string \<Rightarrow> string \<Rightarrow> bool \<Rightarrow> string" where
  "get_response content_type content current_date filename keep_alive =
     (let response_headers =
            ''HTTP/1.1 200 OK'' @ CRLF
            @ ''Content-Type: '' @ content_type @ CRLF
            @ ''Content-Length: '' @ show_nat (length content) @ CRLF
            @ ''Date: '' @ current_date @ CRLF
            @ ''Server: My Python HTTP Server'' @ CRLF
            @ (if content_type = ''application/octet-stream''
               then ''Content-Disposition: attachment; filename='' @ [DQ] @ filename @ [DQ] @ CRLF
               else [])
            @ connection_headers keep_alive
      in encode_utf8 response_headers @ content)"

text \<open>Lines 168 and 169: \<open>/\<close> stands for \<open>/index.html\<close>.\<close>

definition served_path :: "string \<Rightarrow> string" where
  "served_path path0 = (if path0 = ''/'' then ''/index.html'' else path0)"

definition serve_get_request :: "'j env \<Rightarrow> string \<Rightarrow> bool \<Rightarrow> state \<Rightarrow> unit result" where
  "serve_get_request env path0 keep_alive s =
     (let path = served_path path0
      in if contains ''..'' path then send_error env 403 ''Forbidden'' False [] s
         else
           let filepath = ''resources'' @ path;
               filename = last (split_all ''/'' path);
               attempt =
                 (case open_rb filepath s of
                    (Inl e, s1) \<Rightarrow> (Inl e, s1)
                  | (Inr content, s1) \<Rightarrow>
                      (case content_type_of filepath of
                         None \<Rightarrow> send_error env 415 ''Unsupported Media Type'' False [] s1
                       | Some content_type \<Rightarrow>
                           (case strftime_date env s1 of
                              (current_date, s2) \<Rightarrow>
                                sendall env
                                  (get_response content_type content current_date filename
                                     keep_alive) s2)))
           in case attempt of
                (Inl FileNotFoundError, s') \<Rightarrow> send_error env 404 ''Not Found'' False [] s'
              | other \<Rightarrow> other)"

definition upload_filename :: "string \<Rightarrow> string \<Rightarrow> string" where
  "upload_filename timestamp random_id = ''upload_'' @ timestamp @ ''_'' @ random_id @ ''.json''"

text \<open>The bytes of a 201 response (lines 246 to 269).\<close>

definition post_response :: "string \<Rightarrow> string \<Rightarrow> bool \<Rightarrow> string" where
  "post_response filename current_date keep_alive =
     (let response_body =
            json_dumps_dict
              [(''status'', ''success''),
               (''message'', ''File created successfully''),
               (''filepath'', ''/uploads/'' @ filename)];
          response_headers =
            ''HTTP/1.1 201 Created'' @ CRLF
            @ ''Content-Type: application/json'' @ CRLF
            @ ''Content-Length: '' @ show_nat (length response_body) @ CRLF
            @ ''Date: '' @ current_date @ CRLF
            @ ''Server: My Python HTTP Server'' @ CRLF
            @ connection_headers keep_alive
      in encode_utf8 response_headers @ encode_utf8 response_body)"

definition header_get :: "(string \<rightharpoonup> string) \<Rightarrow> string \<Rightarrow> string \<Rightarrow> string" where
  "header_get headers key dflt = (case headers key of None \<Rightarrow> dflt | Some value \<Rightarrow> value)"

definition serve_post_request ::
  "'j env \<Rightarrow> (string \<rightharpoonup> string) \<Rightarrow> string \<Rightarrow> bool \<Rightarrow> state \<Rightarrow> unit result" where
  "serve_post_request env headers body_part keep_alive s =
     (if \<not> prefix ''application/json'' (header_get headers ''content-type'' [])
      then send_error env 415 ''Unsupported Media Type'' False [] s
      else
        case json_loads env body_part of
          Json_decode_error \<Rightarrow> send_error env 400 ''Bad Request'' False [] s
        | Json_recursion_error \<Rightarrow> (Inl RecursionError, s)
        | Json_value json_data \<Rightarrow>
            (case strftime_stamp env s of
               (timestamp, s1) \<Rightarrow>
                 (case random_choices env (ascii_lowercase @ digits) 4 s1 of
                    (random_id, s2) \<Rightarrow>
                      let filename = upload_filename timestamp random_id;
                          filepath = ''resources/uploads/'' @ filename;
                          attempt =
                            (case open_w_dump env filepath json_data s2 of
                               (Inl e, s3) \<Rightarrow> (Inl e, s3)
                             | (Inr _, s3) \<Rightarrow>
                                 (case strftime_date env s3 of
                                    (current_date, s4) \<Rightarrow>
                                      sendall env
                                        (post_response filename current_date keep_alive) s4))
                      in case attempt of
                           (Inl e, s') \<Rightarrow>
                             send_error env 500 ''Internal Server Error'' False [] s'
                         | other \<Rightarrow> other)))"

text \<open>
  The file name \<open>serve_post_request\<close> generates when it is entered in state \<open>s\<close>
  (lines 235 to 237): the clock is read first, the random generator second.
\<close>

definition generated_filename :: "'j env \<Rightarrow> state \<Rightarrow> string" where
  "generated_filename env s =
     upload_filename (stamp_oracle env (tick s))
       (fst (random_choices env (ascii_lowercase @ digits) 4 (advance s)))"

text \<open>
  The dict comprehension of line 116: the lines with \<open>': '\<close>, cut at the first \<open>': '\<close>,
  keys lower-cased, a later line replacing an earlier one with the same key.
\<close>

definition parse_headers :: "string list \<Rightarrow> (string \<rightharpoonup> string)" where
  "parse_headers header_lines =
     foldl (\<lambda>headers line.
              case split_max '': '' 1 line of
                [key, value] \<Rightarrow> headers(lower key \<mapsto> value)
              | _ \<Rightarrow> headers)
       Map.empty (filter (contains '': '') header_lines)"

text \<open>Lines 119 to 126, with \<open>request_count\<close> already incremented.\<close>

definition decide_keep_alive :: "string \<Rightarrow> string \<Rightarrow> nat \<Rightarrow> bool" where
  "decide_keep_alive http_version connection_header request_count =
     (let should_keep_alive =
            (if suffix ''/1.1'' http_version \<and> connection_header \<noteq> ''close'' then True
             else if suffix ''/1.0'' http_version \<and> connection_header = ''keep-alive'' then True
             else False)
      in if request_count \<ge> 100 then False else should_keep_alive)"

datatype flow = Break | Continue

definition after_response :: "bool \<Rightarrow> unit result \<Rightarrow> flow result" where
  "after_response should_keep_alive r =
     (case r of
        (Inl e, s') \<Rightarrow> (Inl e, s')
      | (Inr _, s') \<Rightarrow> (Inr (if should_keep_alive then Continue else Break), s'))"

text \<open>
  Lines 112 to 116: what the server reads out of one block of text. The source keeps the
  five values in local variables; nothing is sent or read between these lines, so they are
  gathered here in one function and one record. A failed tuple unpacking is a
  \<open>ValueError\<close>; \<open>split\<close> never returns an empty list, so the \<open>IndexError\<close> of
  \<open>[0]\<close> cannot happen.
\<close>

record request =
  req_method :: string
  req_path :: string
  req_version :: string
  req_headers :: "string \<rightharpoonup> string"
  req_body :: string

definition parse_request :: "string \<Rightarrow> exn + request" where
  "parse_request request_data =
     (case split_max CRLF2 1 request_data of
        [headers_part, body_part] \<Rightarrow>
          (case split_all CRLF headers_part of
             [] \<Rightarrow> Inl IndexError
           | first_line # header_lines \<Rightarrow>
               (case split_max '' '' 2 first_line of
                  [method, path, http_version] \<Rightarrow>
                    Inr \<lparr>req_method = method, req_path = path, req_version = http_version,
                         req_headers = parse_headers header_lines, req_body = body_part\<rparr>
                | _ \<Rightarrow> Inl ValueError))
      | _ \<Rightarrow> Inl ValueError)"

text \<open>The flag \<open>should_keep_alive\<close> as it stands after line 126.\<close>

definition should_keep_alive :: "request \<Rightarrow> nat \<Rightarrow> bool" where
  "should_keep_alive req request_count =
     decide_keep_alive (req_version req)
       (lower (header_get (req_headers req) ''connection'' [])) request_count"

text \<open>Lines 128 to 149: host validation, routing, and the \<open>break\<close> or \<open>continue\<close>.\<close>

definition respond :: "'j env \<Rightarrow> nat \<Rightarrow> request \<Rightarrow> state \<Rightarrow> flow result" where
  "respond env request_count req s =
     (let keep_alive = should_keep_alive req request_count;
          server_host_address = HOST env @ '':'' @ show_nat (PORT env)
      in case req_headers req ''host'' of
           None \<Rightarrow>
             after_response keep_alive (send_error env 400 ''Bad Request'' keep_alive [] s)
         | Some host \<Rightarrow>
             if host \<noteq> server_host_address
             then after_response keep_alive (send_error env 403 ''Forbidden'' keep_alive [] s)
             else after_response keep_alive
                    (if req_method req = ''GET''
                     then serve_get_request env (req_path req) keep_alive s
                     else if req_method req = ''POST''
                     then serve_post_request env (req_headers req) (req_body req) keep_alive s
                     else send_error env 405 ''Method Not Allowed'' keep_alive [] s))"

text \<open>
  Lines 112 to 149: the processing of one non-empty read, \<open>request_count\<close> being the
  counter after its increment on line 109.
\<close>

definition process_request :: "'j env \<Rightarrow> nat \<Rightarrow> string \<Rightarrow> state \<Rightarrow> flow result" where
  "process_request env request_count request_data s =
     (case parse_request request_data of
        Inl e \<Rightarrow> (Inl e, s)
      | Inr req \<Rightarrow> respond env request_count req s)"

text \<open>
  One pass through the body of the \<open>while\<close> loop (lines 102 to 158), entered with
  \<open>request_count\<close> requests counted so far. \<open>Inr Continue\<close> is reached only after the
  increment of line 109; an \<open>Inl\<close> is an exception raised inside an \<open>except\<close> clause,
  which leaves the loop for the outer \<open>try\<close>.
\<close>

definition on_exception :: "'j env \<Rightarrow> flow result \<Rightarrow> flow result" where
  "on_exception env attempt =
     (case attempt of
        (Inl SocketTimeout, s') \<Rightarrow> (Inr Break, s')
      | (Inl e, s') \<Rightarrow>
          (case send_error env 500 ''Internal Server Error'' False [] s' of
             (Inl e', s'') \<Rightarrow> (Inl e', s'')
           | (Inr _, s'') \<Rightarrow> (Inr Break, s''))
      | (Inr fl, s') \<Rightarrow> (Inr fl, s'))"

definition iteration :: "'j env \<Rightarrow> nat \<Rightarrow> state \<Rightarrow> flow result" where
  "iteration env request_count s =
     on_exception env
       (case recv_decode env 8192 (settimeout 30 s) of
          (Inl e, s1) \<Rightarrow> (Inl e, s1)
        | (Inr request_data, s1) \<Rightarrow>
            if request_data = [] then (Inr Break, s1)
            else process_request env (request_count + 1) request_data s1)"

function connection_loop :: "'j env \<Rightarrow> nat \<Rightarrow> state \<Rightarrow> unit result" where
  "connection_loop env request_count s =
     (if request_count < 100
      then (case iteration env request_count s of
              (Inl e, s') \<Rightarrow> (Inl e, s')
            | (Inr Break, s') \<Rightarrow> (Inr (), s')
            | (Inr Continue, s') \<Rightarrow> connection_loop env (Suc request_count) s')
      else (Inr (), s))"
  by pat_completeness auto
termination
  by (relation "measure (\<lambda>(env, request_count, s). 100 - request_count)") auto

declare connection_loop.simps [simp del]

text \<open>
  \<open>handle_connection\<close>: the loop inside the outer \<open>try\<close>, whose \<open>except Exception\<close>
  only logs, and the \<open>finally\<close> clause.
\<close>

definition handle_connection :: "'j env \<Rightarrow> state \<Rightarrow> state" where
  "handle_connection env s =
     (case connection_loop env 0 s of
        (Inl e, s') \<Rightarrow> close s'
      | (Inr _, s') \<Rightarrow> close s')"

text \<open>\<open>queue.Queue(maxsize).put_nowait\<close> on a queue holding \<open>q\<close>.\<close>

definition put_nowait :: "nat \<Rightarrow> 'c list \<Rightarrow> 'c \<Rightarrow> exn + 'c list" where
  "put_nowait maxsize q item =
     (if 0 < maxsize \<and> maxsize \<le> length q then Inl QueueFull else Inr (q @ [item]))"

text \<open>
  Lines 82 to 92 of \<open>main\<close>: what the acceptor does with one accepted connection, the
  state being that of the new client socket. An \<open>Inl\<close> leaves the \<open>while True\<close> loop
  and \<open>main\<close>.
\<close>

definition accept_connection :: "'j env \<Rightarrow> 'c list \<Rightarrow> 'c \<Rightarrow> state \<Rightarrow> (exn + 'c list) \<times> state" where
  "accept_connection env q client_socket s =
     (case put_nowait MAX_QUEUE_SIZE q client_socket of
        Inr q' \<Rightarrow> (Inr q', s)
      | Inl QueueFull \<Rightarrow>
          (case send_error env 503 ''Service Unavailable'' False [(''Retry-After'', ''10'')] s of
             (Inl e, s') \<Rightarrow> (Inl e, s')
           | (Inr _, s') \<Rightarrow> (Inr q, close s'))
      | Inl e \<Rightarrow> (Inl e, s))"

section \<open>Reading traces\<close>

text \<open>The messages passed to \<open>sendall\<close>, in order.\<close>

fun sends :: "event list \<Rightarrow> string list" where
  "sends [] = []"
| "sends (Ev_send r # es) = r # sends es"
| "sends (_ # es) = sends es"

text \<open>The buffer sizes of the \<open>recv\<close> calls, in order.\<close>

fun recvs :: "event list \<Rightarrow> nat list" where
  "recvs [] = []"
| "recvs (Ev_recv n # es) = n # recvs es"
| "recvs (_ # es) = recvs es"

text \<open>The paths opened for reading or writing, in order.\<close>

fun opens :: "event list \<Rightarrow> string list" where
  "opens [] = []"
| "opens (Ev_open_rb p # es) = p # opens es"
| "opens (Ev_open_w p # es) = p # opens es"
| "opens (_ # es) = opens es"

text \<open>A response whose header block ends with \<open>Connection: close\<close>.\<close>

definition says_close :: "string \<Rightarrow> bool" where
  "says_close r = contains (''Connection: close'' @ CRLF2) r"

text \<open>A response with a \<open>Connection: keep-alive\<close> header line.\<close>

definition says_keep_alive :: "string \<Rightarrow> bool" where
  "says_keep_alive r = contains (''Connection: keep-alive'' @ CRLF) r"

section \<open>Vocabulary of the theorems\<close>

text \<open>The state in which an iteration of the loop has set the timeout and read once.\<close>

definition after_recv :: "state \<Rightarrow> state" where
  "after_recv s = advance (emit (Ev_recv 8192) (settimeout 30 s))"

text \<open>
  The space-separated tokens of the request line, as \<open>parse_request\<close> finds that line:
  the text before the first CRLF of the text before the first blank line. Without a blank
  line there is no request line and no token.
\<close>

definition request_line_tokens :: "string \<Rightarrow> string list" where
  "request_line_tokens request_data =
     (case split_max CRLF2 1 request_data of
        [headers_part, body_part] \<Rightarrow>
          (case split_all CRLF headers_part of
             [] \<Rightarrow> []
           | first_line # header_lines \<Rightarrow> split_all '' '' first_line)
      | _ \<Rightarrow> [])"

text \<open>
  The five error responses that the handlers send with the literal \<open>keep_alive=False\<close>,
  whatever the flag of the request: path traversal, file not found, unsupported media type,
  malformed JSON, and the 500 of an exception.
\<close>

definition forced_close_errors :: "string list" where
  "forced_close_errors =
     [error_response 403 ''Forbidden'' False [],
      error_response 404 ''Not Found'' False [],
      error_response 415 ''Unsupported Media Type'' False [],
      error_response 400 ''Bad Request'' False [],
      error_response 500 ''Internal Server Error'' False []]"

text \<open>The calls a request handler makes: sends and file opens.\<close>

definition io_event :: "event \<Rightarrow> bool" where
  "io_event e =
     (case e of Ev_send _ \<Rightarrow> True | Ev_open_rb _ \<Rightarrow> True | Ev_open_w _ \<Rightarrow> True | _ \<Rightarrow> False)"

text \<open>
  The calls a request handler can make while the flag of the request is \<open>ka\<close>: file
  opens, the five forced-close errors, and the responses built with the flag itself.
\<close>

inductive allowed :: "bool \<Rightarrow> event \<Rightarrow> bool" for ka :: bool where
  open_rb: "allowed ka (Ev_open_rb p)"
| open_w: "allowed ka (Ev_open_w p)"
| forced: "r \<in> set forced_close_errors \<Longrightarrow> allowed ka (Ev_send r)"
| error_flag: "allowed ka (Ev_send (error_response c m ka []))"
| get_flag: "allowed ka (Ev_send (get_response ct content d f ka))"
| post_flag: "allowed ka (Ev_send (post_response f d ka))"

text \<open>The trace of \<open>s'\<close> is the trace of \<open>s\<close> followed by calls that satisfy \<open>P\<close>.\<close>

definition grows :: "(event \<Rightarrow> bool) \<Rightarrow> state \<Rightarrow> state \<Rightarrow> bool" where
  "grows P s s' \<longleftrightarrow> (\<exists>evs. trace s' = trace s @ evs \<and> list_all P evs)"

text \<open>The random suffix \<open>serve_post_request\<close> draws when it is entered in state \<open>s\<close>.\<close>

definition random_id :: "'j env \<Rightarrow> state \<Rightarrow> string" where
  "random_id env s = fst (random_choices env (ascii_lowercase @ digits) 4 (advance s))"

text \<open>A response whose status line carries the code \<open>code\<close>.\<close>

definition status_is :: "nat \<Rightarrow> string \<Rightarrow> bool" where
  "status_is code r = prefix (''HTTP/1.1 '' @ show_nat code @ '' '') r"

section \<open>A concrete world\<close>

text \<open>
  A server on \<open>127.0.0.1:8080\<close> whose peer is silent, whose sends succeed, whose clock
  stands still, and whose \<open>resources\<close> directory holds \<open>index.html\<close> and \<open>notes.md\<close>.
  The examples below change one field at a time.
\<close>

definition demo_env :: "unit env" where
  "demo_env =
     \<lparr>HOST = ''127.0.0.1'', PORT = 8080,
      recv_oracle = (\<lambda>_. Recv_timeout),
      send_oracle = (\<lambda>_. Send_ok),
      date_oracle = (\<lambda>_. ''Mon, 01 Jan 2024 00:00:00 GMT''),
      stamp_oracle = (\<lambda>_. ''20240101_000000''),
      rand_oracle = (\<lambda>_ _. 0),
      json_loads = (\<lambda>body. if body = ''{}'' then Json_value () else Json_decode_error),
      json_dump = (\<lambda>_. ''{}'')\<rparr>"

definition demo_state :: state where
  "demo_state =
     \<lparr>tick = 0,
      files = (\<lambda>p. if p = ''resources/index.html'' then Content ''<p>hi</p>''
                  else if p = ''resources/notes.md'' then Content ''# notes''
                  else Missing),
      trace = []\<rparr>"

text \<open>Requests used in the examples.\<close>

definition post_text_request :: string where
  "post_text_request =
     ''POST /upload HTTP/1.0'' @ CRLF @ ''Host: 127.0.0.1:8080'' @ CRLF
     @ ''Content-Type: text/plain'' @ CRLF @ ''Content-Length: 10'' @ CRLF2 @ ''hello''"

text \<open>
  Variations of the concrete world: a peer that sends text without a blank line, bytes that
  are not UTF-8, a POST whose body has arrived only in part, a GET for a file that does not
  exist; and a peer that has reset the connection, so that every send fails.
\<close>

definition garbage_env :: "unit env" where
  "garbage_env = demo_env\<lparr>recv_oracle := (\<lambda>_. Recv_text ''hello'')\<rparr>"

definition undecodable_env :: "unit env" where
  "undecodable_env = demo_env\<lparr>recv_oracle := (\<lambda>_. Recv_undecodable)\<rparr>"

definition truncated_env :: "unit env" where
  "truncated_env = demo_env\<lparr>recv_oracle := (\<lambda>_. Recv_text post_text_request)\<rparr>"

definition get_absent_request :: string where
  "get_absent_request =
     ''GET /absent.html HTTP/1.0'' @ CRLF @ ''Host: 127.0.0.1:8080'' @ CRLF2"

definition absent_env :: "unit env" where
  "absent_env = demo_env\<lparr>recv_oracle := (\<lambda>_. Recv_text get_absent_request)\<rparr>"

definition reset_env :: "unit env" where
  "reset_env = demo_env\<lparr>send_oracle := (\<lambda>_. Send_oserror)\<rparr>"

text \<open>
  A POST of the JSON text \<open>{}\<close>, a clock one second later, and a peer that sends the same
  GET for \<open>/\<close> over HTTP/1.1 again and again, with the response it gets.
\<close>

definition post_json_request :: string where
  "post_json_request =
     ''POST /upload HTTP/1.0'' @ CRLF @ ''Host: 127.0.0.1:8080'' @ CRLF
     @ ''Content-Type: application/json'' @ CRLF2 @ ''{}''"

definition post_env :: "unit env" where
  "post_env = demo_env\<lparr>recv_oracle := (\<lambda>_. Recv_text post_json_request)\<rparr>"

definition later_env :: "unit env" where
  "later_env = demo_env\<lparr>stamp_oracle := (\<lambda>_. ''20240101_000001'')\<rparr>"

definition get_index_request :: string where
  "get_index_request = ''GET / HTTP/1.1'' @ CRLF @ ''Host: 127.0.0.1:8080'' @ CRLF2"

definition keep_alive_env :: "unit env" where
  "keep_alive_env = demo_env\<lparr>recv_oracle := (\<lambda>_. Recv_text get_index_request)\<rparr>"

definition index_response :: "bool \<Rightarrow> string" where
  "index_response keep_alive =
     get_response ''text/html; charset=utf-8'' ''<p>hi</p>'' ''Mon, 01 Jan 2024 00:00:00 GMT''
       ''index.html'' keep_alive"

text \<open>
  A GET over HTTP/1.1 for a file that does not exist, from a peer that sends it once and then
  stays silent; and a file system in which \<open>resources/uploads\<close> is a directory.
\<close>

definition get_absent_http11_request :: string where
  "get_absent_http11_request =
     ''GET /absent.html HTTP/1.1'' @ CRLF @ ''Host: 127.0.0.1:8080'' @ CRLF2"

definition absent_http11_env :: "unit env" where
  "absent_http11_env =
     demo_env\<lparr>recv_oracle :=
       (\<lambda>k. if k = 0 then Recv_text get_absent_http11_request else Recv_timeout)\<rparr>"

definition directory_state :: state where
  "directory_state = demo_state\<lparr>files := (files demo_state)(''resources/uploads'' := Denied)\<rparr>"

text \<open>A peer that has closed its side of the connection: every read returns no bytes.\<close>

definition hung_up_env :: "unit env" where
  "hung_up_env = demo_env\<lparr>recv_oracle := (\<lambda>_. Recv_text [])\<rparr>"

section \<open>Facts about the string operations\<close>

lemma contains_sublist: "contains sub s \<longleftrightarrow> sublist sub s"
  by (induction s) (auto simp: sublist_Cons_right)

lemma contains_append_mid: "contains sub (a @ sub @ b)"
  by (simp add: contains_sublist)

lemma partition_sep_None: "partition_sep sep s = None \<longleftrightarrow> \<not> contains sep s"
  by (induction s) auto

lemma partition_sep_Some:
  "partition_sep sep s = Some (a, b) \<Longrightarrow> s = a @ sep @ b"
proof (induction s arbitrary: a)
  case Nil
  then show ?case by (simp split: if_splits)
next
  case (Cons c cs)
  show ?case
  proof (cases "prefix sep (c # cs)")
    case True
    then obtain zs where zs: "c # cs = sep @ zs" by (auto simp: prefix_def)
    from Cons.prems True have "a = []" "b = drop (length sep) (c # cs)" by auto
    with zs show ?thesis by simp
  next
    case False
    with Cons.prems obtain a' where "partition_sep sep cs = Some (a', b)" "a = c # a'"
      by auto
    with Cons.IH show ?thesis by simp
  qed
qed

lemma partition_sep_shorter:
  "partition_sep sep s = Some (a, b) \<Longrightarrow> sep \<noteq> [] \<Longrightarrow> length b < length s"
  by (drule partition_sep_Some) (cases sep, auto)

lemma split_max_not_Nil: "split_max sep n s \<noteq> []"
  by (cases n) (auto split: option.splits)

lemma split_all_not_Nil: "split_all sep s \<noteq> []"
  by (simp add: split_all_def split_max_not_Nil)

lemma split_max_fuel:
  "sep \<noteq> [] \<Longrightarrow> length s \<le> n \<Longrightarrow> length s \<le> m \<Longrightarrow> split_max sep n s = split_max sep m s"
proof (induction n arbitrary: m s)
  case 0
  then show ?case by (cases m) auto
next
  case (Suc n)
  show ?case
  proof (cases "partition_sep sep s")
    case None
    then show ?thesis by (cases m) auto
  next
    case (Some ab)
    obtain a b where ab: "ab = (a, b)" by (cases ab)
    from Some ab Suc.prems have lt: "length b < length s"
      by (auto dest: partition_sep_shorter)
    with Suc.prems obtain m' where m': "m = Suc m'" by (cases m) auto
    from lt m' Suc.prems have "length b \<le> n" "length b \<le> m'" by auto
    with Suc.IH [of b m'] Suc.prems(1) have "split_max sep n b = split_max sep m' b"
      by simp
    with Some ab m' show ?thesis by simp
  qed
qed

lemma split_max_enough:
  "sep \<noteq> [] \<Longrightarrow> length s \<le> n \<Longrightarrow> split_max sep n s = split_max sep (length s) s"
  by (rule split_max_fuel) simp_all

section \<open>Facts about the primitives\<close>

lemma trace_emit [simp]: "trace (emit e s) = trace s @ [e]"
  by (simp add: emit_def)

lemma trace_advance [simp]: "trace (advance s) = trace s"
  by (simp add: advance_def)

lemma files_emit [simp]: "files (emit e s) = files s"
  by (simp add: emit_def)

lemma files_advance [simp]: "files (advance s) = files s"
  by (simp add: advance_def)

lemma tick_emit [simp]: "tick (emit e s) = tick s"
  by (simp add: emit_def)

lemma tick_advance [simp]: "tick (advance s) = Suc (tick s)"
  by (simp add: advance_def)

lemma snd_sendall [simp]: "snd (sendall env d s) = advance (emit (Ev_send d) s)"
  by (simp add: sendall_def)

lemma snd_send_error [simp]:
  "snd (send_error env c m k x s) = advance (emit (Ev_send (error_response c m k x)) s)"
  by (simp add: send_error_def)

section \<open>Evaluating strings\<close>

lemma encode_char_ascii:
  "encode_char (Char b0 b1 b2 b3 b4 b5 b6 False) = [Char b0 b1 b2 b3 b4 b5 b6 False]"
  by (cases b0; cases b1; cases b2; cases b3; cases b4; cases b5; cases b6; simp add: encode_char_def Let_def)

lemma digit_chars:
  "digit_char 0 = CHR ''0''" "digit_char 1 = CHR ''1''" "digit_char 2 = CHR ''2''" "digit_char 3 = CHR ''3''"
  "digit_char 4 = CHR ''4''" "digit_char 5 = CHR ''5''" "digit_char 6 = CHR ''6''" "digit_char 7 = CHR ''7''"
  "digit_char 8 = CHR ''8''" "digit_char 9 = CHR ''9''"
  by (simp_all add: digit_char_def char_of_def bit_Suc_0_iff)

lemma encode_utf8_Nil [simp]: "encode_utf8 [] = []" by (simp add: encode_utf8_def)
lemma encode_utf8_Cons [simp]: "encode_utf8 (c # s) = encode_char c @ encode_utf8 s" by (simp add: encode_utf8_def)
lemma encode_utf8_append [simp]: "encode_utf8 (a @ b) = encode_utf8 a @ encode_utf8 b" by (simp add: encode_utf8_def)

lemma show_nat_numeral:
  "show_nat (numeral k) =
     (if numeral k < (10::nat) then [digit_char (numeral k)]
      else show_nat (numeral k div 10) @ [digit_char (numeral k mod 10)])"
  by (rule show_nat.simps)

lemma split_max_2: "split_max sep 2 s = split_max sep (Suc (Suc 0)) s"
  by (simp add: numeral_2_eq_2)


lemmas string_eval = CRLF_def CRLF2_def CR_def LF_def split_max_2 split_all_def
  lower_def lower_char_def Let_def char_of_def bit_Suc_0_iff

lemma parse_post_text:
  "parse_request post_text_request =
     Inr \<lparr>req_method = ''POST'', req_path = ''/upload'', req_version = ''HTTP/1.0'',
          req_headers = [''host'' \<mapsto> ''127.0.0.1:8080'', ''content-type'' \<mapsto> ''text/plain'',
                         ''content-length'' \<mapsto> ''10''],
          req_body = ''hello''\<rparr>"
  by (simp add: parse_request_def post_text_request_def parse_headers_def string_eval)

lemma demo_address: "HOST demo_env @ '':'' @ show_nat (PORT demo_env) = ''127.0.0.1:8080''"
  by (simp add: demo_env_def show_nat_numeral digit_chars)

section \<open>Symbolic execution of the handlers\<close>

lemma except_any_sendall:
  "(case sendall env d s of (Inl e, s') \<Rightarrow> f s' | other \<Rightarrow> other)
     = (if send_oracle env (tick s) = Send_ok then sendall env d s
        else f (advance (emit (Ev_send d) s)))"
  by (simp add: sendall_def split: send_outcome.splits)

lemma post_not_json:
  "\<not> prefix ''application/json'' (header_get h ''content-type'' []) \<Longrightarrow>
   serve_post_request env h b ka s = send_error env 415 ''Unsupported Media Type'' False [] s"
  by (simp add: serve_post_request_def)

lemma post_bad_json:
  "prefix ''application/json'' (header_get h ''content-type'' []) \<Longrightarrow>
   json_loads env b = Json_decode_error \<Longrightarrow>
   serve_post_request env h b ka s = send_error env 400 ''Bad Request'' False [] s"
  by (simp add: serve_post_request_def)

lemma post_recursion:
  "prefix ''application/json'' (header_get h ''content-type'' []) \<Longrightarrow>
   json_loads env b = Json_recursion_error \<Longrightarrow>
   serve_post_request env h b ka s = (Inl RecursionError, s)"
  by (simp add: serve_post_request_def)

lemma post_denied:
  "prefix ''application/json'' (header_get h ''content-type'' []) \<Longrightarrow>
   json_loads env b = Json_value j \<Longrightarrow>
   files s (''resources/uploads/'' @ generated_filename env s) = Denied \<Longrightarrow>
   serve_post_request env h b ka s
     = send_error env 500 ''Internal Server Error'' False []
         (emit (Ev_open_w (''resources/uploads/'' @ generated_filename env s)) (advance (advance s)))"
  by (simp add: serve_post_request_def generated_filename_def strftime_stamp_def
        random_choices_def open_w_dump_def Let_def)

lemma post_written:
  assumes "prefix ''application/json'' (header_get h ''content-type'' [])"
    "json_loads env b = Json_value j"
    "files s (''resources/uploads/'' @ generated_filename env s) \<noteq> Denied"
  shows "serve_post_request env h b ka s
     = (let fp = ''resources/uploads/'' @ generated_filename env s;
            s3 = (emit (Ev_open_w fp) (advance (advance s)))
                   \<lparr>files := (files s)(fp := Content (json_dump env j))\<rparr>;
            r = post_response (generated_filename env s) (date_oracle env (Suc (Suc (tick s)))) ka
        in if send_oracle env (Suc (Suc (Suc (tick s)))) = Send_ok
           then sendall env r (advance s3)
           else send_error env 500 ''Internal Server Error'' False []
                  (advance (emit (Ev_send r) (advance s3))))"
  using assms
  by (simp add: serve_post_request_def generated_filename_def strftime_stamp_def
        random_choices_def open_w_dump_def strftime_date_def Let_def except_any_sendall
        advance_def emit_def)

lemma fst_send_error_not_fnf [simp]: "fst (send_error env c m k x s) \<noteq> Inl FileNotFoundError"
  by (simp add: send_error_def sendall_def split: send_outcome.splits)

lemma sendall_not_fnf: "sendall env d s \<noteq> (Inl FileNotFoundError, s')"
  by (simp add: sendall_def split: send_outcome.splits)

lemma except_fnf_sendall [simp]:
  "(case sendall env d s of (Inl FileNotFoundError, s') \<Rightarrow> f s' | other \<Rightarrow> other) = sendall env d s"
  by (simp add: sendall_def split: send_outcome.splits)

lemma except_fnf_send_error [simp]:
  "(case send_error env c m k x s of (Inl FileNotFoundError, s') \<Rightarrow> f s' | other \<Rightarrow> other)
     = send_error env c m k x s"
  by (simp add: send_error_def)

lemma get_missing:
  assumes "\<not> contains ''..'' (served_path p)" "files s (''resources'' @ served_path p) = Missing"
  shows "serve_get_request env p ka s
           = send_error env 404 ''Not Found'' False [] (emit (Ev_open_rb (''resources'' @ served_path p)) s)"
  using assms by (simp add: serve_get_request_def served_path_def Let_def open_rb_def)

lemma get_denied:
  assumes "\<not> contains ''..'' (served_path p)" "files s (''resources'' @ served_path p) = Denied"
  shows "serve_get_request env p ka s
           = (Inl OSError, emit (Ev_open_rb (''resources'' @ served_path p)) s)"
  using assms by (simp add: serve_get_request_def served_path_def Let_def open_rb_def)

lemma get_unsupported:
  assumes "\<not> contains ''..'' (served_path p)" "files s (''resources'' @ served_path p) = Content c"
    "content_type_of (''resources'' @ served_path p) = None"
  shows "serve_get_request env p ka s
           = send_error env 415 ''Unsupported Media Type'' False []
               (emit (Ev_open_rb (''resources'' @ served_path p)) s)"
  using assms by (simp add: serve_get_request_def served_path_def Let_def open_rb_def)

lemma get_ok:
  assumes "\<not> contains ''..'' (served_path p)" "files s (''resources'' @ served_path p) = Content c"
    "content_type_of (''resources'' @ served_path p) = Some ct"
  shows "serve_get_request env p ka s
           = sendall env
               (get_response ct c (date_oracle env (tick s)) (last (split_all ''/'' (served_path p))) ka)
               (advance (emit (Ev_open_rb (''resources'' @ served_path p)) s))"
  using assms by (simp add: serve_get_request_def served_path_def Let_def open_rb_def strftime_date_def)

section \<open>What a handler can add to the trace\<close>

lemma forced_intros:
  "allowed ka (Ev_send (error_response 403 ''Forbidden'' False []))"
  "allowed ka (Ev_send (error_response 404 ''Not Found'' False []))"
  "allowed ka (Ev_send (error_response 415 ''Unsupported Media Type'' False []))"
  "allowed ka (Ev_send (error_response 400 ''Bad Request'' False []))"
  "allowed ka (Ev_send (error_response 500 ''Internal Server Error'' False []))"
  by (simp_all add: allowed.forced forced_close_errors_def)

lemmas allowed_intros =
  allowed.open_rb allowed.open_w forced_intros allowed.error_flag allowed.get_flag
  allowed.post_flag

lemma allowed_io: "allowed ka e \<Longrightarrow> io_event e"
  by (auto simp: io_event_def elim: allowed.cases)

lemma grows_refl [simp]: "grows P s s"
  by (simp add: grows_def)

lemma grows_trans: "grows P s s' \<Longrightarrow> grows P s' s'' \<Longrightarrow> grows P s s''"
  by (auto simp: grows_def)

lemma grows_mono: "grows P s s' \<Longrightarrow> (\<And>e. P e \<Longrightarrow> Q e) \<Longrightarrow> grows Q s s'"
  by (auto simp: grows_def list_all_iff)

lemma grows_emit: "grows P s s' \<Longrightarrow> P e \<Longrightarrow> grows P s (emit e s')"
  by (auto simp: grows_def)

lemma grows_advance [simp]: "grows P s (advance s') \<longleftrightarrow> grows P s s'"
  by (simp add: grows_def)

lemma grows_files [simp]: "grows P s (s'\<lparr>files := f\<rparr>) \<longleftrightarrow> grows P s s'"
  by (simp add: grows_def)

lemma grows_sendall: "grows P s s' \<Longrightarrow> P (Ev_send d) \<Longrightarrow> grows P s (snd (sendall env d s'))"
  by (simp add: grows_emit)

lemma grows_send_error:
  "grows P s s' \<Longrightarrow> P (Ev_send (error_response c m k x)) \<Longrightarrow> grows P s (snd (send_error env c m k x s'))"
  by (simp add: grows_emit)

lemmas grows_intros = grows_sendall grows_send_error grows_emit grows_refl

lemma get_grows: "grows (allowed ka) s (snd (serve_get_request env p ka s))"
proof (cases "contains ''..'' (served_path p)")
  case True
  then show ?thesis
    by (simp add: serve_get_request_def served_path_def Let_def grows_emit allowed_intros)
next
  case False
  show ?thesis
  proof (cases "files s (''resources'' @ served_path p)")
    case Missing
    with False show ?thesis by (simp add: get_missing grows_emit allowed_intros)
  next
    case Denied
    with False show ?thesis by (simp add: get_denied grows_emit allowed_intros)
  next
    case (Content c)
    with False show ?thesis
      by (cases "content_type_of (''resources'' @ served_path p)")
         (simp_all add: get_unsupported get_ok grows_emit allowed_intros)
  qed
qed

lemma post_grows: "grows (allowed ka) s (snd (serve_post_request env h b ka s))"
proof (cases "prefix ''application/json'' (header_get h ''content-type'' [])")
  case False
  then show ?thesis by (simp add: post_not_json grows_emit allowed_intros)
next
  case True
  show ?thesis
  proof (cases "json_loads env b")
    case (Json_value j)
    show ?thesis
    proof (cases "files s (''resources/uploads/'' @ generated_filename env s) = Denied")
      case True
      with \<open>prefix _ _\<close> Json_value show ?thesis
        by (simp add: post_denied grows_emit allowed_intros)
    next
      case False
      with \<open>prefix _ _\<close> Json_value show ?thesis
        by (simp add: post_written Let_def grows_emit allowed_intros)
    qed
  next
    case Json_decode_error
    with True show ?thesis by (simp add: post_bad_json grows_emit allowed_intros)
  next
    case Json_recursion_error
    with True show ?thesis by (simp add: post_recursion)
  qed
qed

lemma snd_after_response [simp]: "snd (after_response ka r) = snd r"
  by (cases r) (simp add: after_response_def split: sum.splits)

lemma fst_after_response:
  "fst (after_response ka r) = (case fst r of Inl e \<Rightarrow> Inl e | Inr _ \<Rightarrow> Inr (if ka then Continue else Break))"
  by (cases r) (simp add: after_response_def split: sum.splits)

lemma respond_grows:
  "grows (allowed (should_keep_alive req rc)) s (snd (respond env rc req s))"
  by (simp add: respond_def Let_def get_grows post_grows grows_emit allowed_intros
      split: option.splits)

lemma respond_continue:
  "fst (respond env rc req s) = Inr Continue \<Longrightarrow> should_keep_alive req rc"
  by (auto simp: respond_def Let_def fst_after_response split: option.splits sum.splits if_splits)

lemma keep_alive_capped: "100 \<le> rc \<Longrightarrow> \<not> should_keep_alive req rc"
  by (simp add: should_keep_alive_def decide_keep_alive_def)

section \<open>The loop\<close>

lemma recvs_append [simp]: "recvs (xs @ ys) = recvs xs @ recvs ys"
  by (induction xs rule: recvs.induct) simp_all

lemma sends_append [simp]: "sends (xs @ ys) = sends xs @ sends ys"
  by (induction xs rule: sends.induct) simp_all

lemma opens_append [simp]: "opens (xs @ ys) = opens xs @ opens ys"
  by (induction xs rule: opens.induct) simp_all

lemma recvs_io: "list_all io_event evs \<Longrightarrow> recvs evs = []"
  by (induction evs rule: recvs.induct) (simp_all add: io_event_def)

lemma no_close_io: "list_all io_event evs \<Longrightarrow> Ev_close \<notin> set evs"
  by (auto simp: list_all_iff io_event_def)

lemma snd_on_exception:
  "snd (on_exception env r) =
     (case fst r of
        Inl e \<Rightarrow> if e = SocketTimeout then snd r
                 else advance (emit (Ev_send (error_response 500 ''Internal Server Error'' False [])) (snd r))
      | Inr _ \<Rightarrow> snd r)"
  by (cases r) (simp add: on_exception_def send_error_def sendall_def split: sum.splits exn.splits send_outcome.splits)

lemma fst_on_exception_continue:
  "fst (on_exception env r) = Inr Continue \<longleftrightarrow> fst r = Inr Continue"
  by (cases r) (auto simp: on_exception_def send_error_def sendall_def split: sum.splits exn.splits send_outcome.splits)

lemma grows_on_exception:
  "grows (allowed ka) s (snd r) \<Longrightarrow> grows (allowed ka) s (snd (on_exception env r))"
  by (simp add: snd_on_exception grows_emit allowed_intros split: sum.splits)

lemma trace_after_recv [simp]: "trace (after_recv s) = trace s @ [Ev_settimeout 30, Ev_recv 8192]"
  by (simp add: after_recv_def settimeout_def)

lemma iteration_cases:
  "iteration env rc s =
     on_exception env
       (case recv_oracle env (tick s) of
          Recv_timeout \<Rightarrow> (Inl SocketTimeout, after_recv s)
        | Recv_oserror \<Rightarrow> (Inl OSError, after_recv s)
        | Recv_undecodable \<Rightarrow> (Inl UnicodeDecodeError, after_recv s)
        | Recv_text d \<Rightarrow> if d = [] then (Inr Break, after_recv s)
                         else process_request env (rc + 1) d (after_recv s))"
  by (simp add: iteration_def recv_decode_def after_recv_def settimeout_def split: recv_outcome.splits)

lemma process_grows:
  "\<exists>ka. grows (allowed ka) s (snd (process_request env rc d s))
        \<and> (100 \<le> rc \<longrightarrow> \<not> ka)
        \<and> (fst (process_request env rc d s) = Inr Continue \<longrightarrow> ka)"
proof (cases "parse_request d")
  case (Inl e)
  then have "process_request env rc d s = (Inl e, s)" by (simp add: process_request_def)
  then show ?thesis by (intro exI [of _ False]) simp
next
  case (Inr req)
  then have "process_request env rc d s = respond env rc req s" by (simp add: process_request_def)
  then show ?thesis
    by (intro exI [of _ "should_keep_alive req rc"])
       (auto simp: respond_grows keep_alive_capped dest: respond_continue)
qed

lemma iteration_grows:
  "\<exists>ka. grows (allowed ka) (after_recv s) (snd (iteration env rc s))
        \<and> (99 \<le> rc \<longrightarrow> \<not> ka)
        \<and> (fst (iteration env rc s) = Inr Continue \<longrightarrow> ka)"
proof (cases "recv_oracle env (tick s)")
  case (Recv_text d)
  show ?thesis
  proof (cases "d = []")
    case True
    with Recv_text show ?thesis
      by (intro exI [of _ False]) (simp add: iteration_cases on_exception_def)
  next
    case False
    obtain ka where ka: "grows (allowed ka) (after_recv s) (snd (process_request env (rc + 1) d (after_recv s)))"
      "100 \<le> rc + 1 \<longrightarrow> \<not> ka"
      "fst (process_request env (rc + 1) d (after_recv s)) = Inr Continue \<longrightarrow> ka"
      using process_grows [of "after_recv s" env "rc + 1" d] by blast
    from Recv_text False have it: "iteration env rc s = on_exception env (process_request env (rc + 1) d (after_recv s))"
      by (simp add: iteration_cases)
    show ?thesis
      using ka unfolding it
      by (intro exI [of _ ka]) (auto simp: grows_on_exception fst_on_exception_continue)
  qed
qed (intro exI [of _ False], simp add: iteration_cases grows_on_exception fst_on_exception_continue)+

lemma iteration_shape:
  "\<exists>evs ka. trace (snd (iteration env rc s)) = trace s @ Ev_settimeout 30 # Ev_recv 8192 # evs
        \<and> list_all (allowed ka) evs
        \<and> (99 \<le> rc \<longrightarrow> \<not> ka)
        \<and> (fst (iteration env rc s) = Inr Continue \<longrightarrow> ka)"
  using iteration_grows [of s env rc] by (auto simp: grows_def)

lemma loop_step:
  "rc < 100 \<Longrightarrow> connection_loop env rc s =
     (case iteration env rc s of
        (Inl e, s') \<Rightarrow> (Inl e, s')
      | (Inr Break, s') \<Rightarrow> (Inr (), s')
      | (Inr Continue, s') \<Rightarrow> connection_loop env (Suc rc) s')"
  by (subst connection_loop.simps) simp

lemma loop_done: "100 \<le> rc \<Longrightarrow> connection_loop env rc s = (Inr (), s)"
  by (subst connection_loop.simps) simp

lemma loop_shape:
  "\<exists>evs. trace (snd (connection_loop env rc s)) = trace s @ evs
        \<and> Ev_close \<notin> set evs \<and> length (recvs evs) \<le> 100 - rc"
proof (induction env rc s rule: connection_loop.induct)
  case (1 env rc s)
  show ?case
  proof (cases "rc < 100")
    case False
    then show ?thesis by (simp add: loop_done)
  next
    case True
    obtain evs ka where it: "trace (snd (iteration env rc s)) = trace s @ Ev_settimeout 30 # Ev_recv 8192 # evs"
      "list_all (allowed ka) evs"
      using iteration_shape [of env rc s] by blast
    then have io: "list_all io_event evs" by (auto simp: list_all_iff intro: allowed_io)
    obtain r s' where r: "iteration env rc s = (r, s')" by (cases "iteration env rc s")
    show ?thesis
    proof (cases "r = Inr Continue")
      case False
      then have "snd (connection_loop env rc s) = s'"
        using True r by (simp add: loop_step split: sum.splits flow.splits)
      with it r io True show ?thesis
        by (auto simp: recvs_io dest: no_close_io)
    next
      case c: True
      with "1.IH" [OF True r [symmetric]] r
      obtain evs' where evs': "trace (snd (connection_loop env (Suc rc) s')) = trace s' @ evs'"
        "Ev_close \<notin> set evs'" "length (recvs evs') \<le> 100 - Suc rc"
        by auto
      have "snd (connection_loop env rc s) = snd (connection_loop env (Suc rc) s')"
        using True r c by (simp add: loop_step)
      with it r io True evs' show ?thesis
        by (auto simp: recvs_io dest: no_close_io)
    qed
  qed
qed

section \<open>Requests that fail to parse\<close>

lemma split_max_length:
  "sep \<noteq> [] \<Longrightarrow> length s \<le> m \<Longrightarrow>
   length (split_max sep n s) = min (Suc n) (length (split_max sep m s))"
proof (induction n arbitrary: s m)
  case 0
  have "split_max sep m s \<noteq> []" by (rule split_max_not_Nil)
  then have "1 \<le> length (split_max sep m s)" by (cases "split_max sep m s") auto
  then show ?case by simp
next
  case (Suc n)
  show ?case
  proof (cases "partition_sep sep s")
    case None
    then show ?thesis by (cases m) auto
  next
    case (Some ab)
    obtain a b where ab: "ab = (a, b)" by (cases ab)
    from Some ab Suc.prems have lt: "length b < length s"
      by (auto dest: partition_sep_shorter)
    with Suc.prems obtain m' where m': "m = Suc m'" by (cases m) auto
    with lt Suc.prems have "length b \<le> m'" by simp
    with Suc.IH [of b m'] Suc.prems(1)
    have "length (split_max sep n b) = min (Suc n) (length (split_max sep m' b))" by simp
    with Some ab m' show ?thesis by simp
  qed
qed

lemma split_max_2_three:
  "sep \<noteq> [] \<Longrightarrow> length (split_max sep 2 s) = 3 \<longleftrightarrow> 3 \<le> length (split_all sep s)"
  using split_max_length [of sep s "length s" 2] by (auto simp: split_all_def)

lemma split_max_2_le: "length (split_max sep 2 s) \<le> 3"
  by (auto simp: numeral_2_eq_2 split: option.splits)

lemma split_max_1_cases:
  "split_max sep 1 s = (case partition_sep sep s of None \<Rightarrow> [s] | Some (a, b) \<Rightarrow> [a, b])"
  by (simp split: option.splits)

lemma list3: "length xs = 3 \<Longrightarrow> \<exists>a b c. xs = [a, b, c]"
  by (cases xs; cases "tl xs"; cases "tl (tl xs)") auto

lemma parse_request_fails:
  "(\<exists>e. parse_request d = Inl e) \<longleftrightarrow> \<not> contains CRLF2 d \<or> length (request_line_tokens d) < 3"
proof (cases "partition_sep CRLF2 d")
  case None
  then show ?thesis
    by (simp add: parse_request_def split_max_1_cases partition_sep_None [symmetric])
next
  case (Some hb)
  obtain h b where hb: "hb = (h, b)" by (cases hb)
  from Some have c: "contains CRLF2 d" using partition_sep_None [of CRLF2 d] by simp
  obtain fl hl where fl: "split_all CRLF h = fl # hl"
    using split_all_not_Nil [of CRLF h] by (cases "split_all CRLF h") auto
  have le: "length (split_max '' '' 2 fl) \<le> 3" by (rule split_max_2_le)
  have three: "length (split_max '' '' 2 fl) = 3 \<longleftrightarrow> 3 \<le> length (split_all '' '' fl)"
    by (rule split_max_2_three) simp
  show ?thesis
  proof (cases "length (split_max '' '' 2 fl) = 3")
    case True
    then obtain m p v where "split_max '' '' 2 fl = [m, p, v]" using list3 by blast
    with Some hb fl c True three show ?thesis
      by (simp add: parse_request_def request_line_tokens_def split_max_1_cases)
  next
    case False
    then have "\<exists>e. parse_request d = Inl e"
      using Some hb fl
      by (auto simp: parse_request_def split_max_1_cases split: list.splits)
    with Some hb fl c False three show ?thesis
      by (simp add: request_line_tokens_def split_max_1_cases)
  qed
qed

lemma handle_connection_eq: "handle_connection env s = close (snd (connection_loop env 0 s))"
  by (simp add: handle_connection_def split: prod.splits sum.splits)

lemma trace_close [simp]: "trace (close s) = trace s @ [Ev_close]"
  by (simp add: close_def)

lemma iteration_fatal:
  assumes "recv_oracle env (tick s) = Recv_undecodable \<or> recv_oracle env (tick s) = Recv_oserror
           \<or> (recv_oracle env (tick s) = Recv_text d \<and> d \<noteq> [] \<and> (\<exists>e. parse_request d = Inl e))"
  shows "fst (iteration env rc s) \<noteq> Inr Continue"
    and "trace (snd (iteration env rc s)) = trace s @
           [Ev_settimeout 30, Ev_recv 8192, Ev_send (error_response 500 ''Internal Server Error'' False [])]"
proof -
  have e: "\<exists>e. e \<noteq> SocketTimeout \<and> iteration env rc s = on_exception env (Inl e, after_recv s)"
    using assms
  proof (elim disjE conjE exE)
    fix e assume "recv_oracle env (tick s) = Recv_text d" "d \<noteq> []" "parse_request d = Inl e"
    moreover from this have "e \<noteq> SocketTimeout"
      by (auto simp: parse_request_def split: list.splits)
    ultimately show ?thesis
      by (intro exI [of _ e]) (simp add: iteration_cases process_request_def)
  qed (auto simp: iteration_cases)
  then obtain e where e: "e \<noteq> SocketTimeout" "iteration env rc s = on_exception env (Inl e, after_recv s)"
    by blast
  show "fst (iteration env rc s) \<noteq> Inr Continue"
    using e by (simp add: fst_on_exception_continue)
  show "trace (snd (iteration env rc s)) = trace s @
           [Ev_settimeout 30, Ev_recv 8192, Ev_send (error_response 500 ''Internal Server Error'' False [])]"
    using e by (simp add: snd_on_exception)
qed

lemma loop_stops:
  "rc < 100 \<Longrightarrow> fst (iteration env rc s) \<noteq> Inr Continue \<Longrightarrow>
   snd (connection_loop env rc s) = snd (iteration env rc s)"
  by (cases "iteration env rc s") (auto simp: loop_step split: sum.splits flow.splits)

lemma fatal_trace:
  assumes "rc < 100"
    "recv_oracle env (tick s) = Recv_undecodable \<or> recv_oracle env (tick s) = Recv_oserror
           \<or> (recv_oracle env (tick s) = Recv_text d \<and> d \<noteq> [] \<and> (\<exists>e. parse_request d = Inl e))"
  shows "trace (close (snd (connection_loop env rc s))) = trace s @
           [Ev_settimeout 30, Ev_recv 8192,
            Ev_send (error_response 500 ''Internal Server Error'' False []), Ev_close]"
  using assms iteration_fatal [of env s d rc] by (simp add: loop_stops)

lemma closed_on_return:
  "\<exists>evs. trace (handle_connection env s) = trace s @ evs @ [Ev_close] \<and> Ev_close \<notin> set evs
         \<and> length (recvs evs) \<le> 100"
  using loop_shape [of env 0 s] by (auto simp: handle_connection_eq)

section \<open>The Connection header of the responses\<close>

lemma contains_skip: "contains sub b \<Longrightarrow> contains sub (a @ b)"
  by (auto simp: contains_sublist sublist_def) (metis append.assoc)

lemma contains_here: "contains sub (sub @ b)"
  using contains_append_mid [of sub "[]" b] by simp

lemma contains_here2: "contains (u @ v) (u @ v @ b)"
  using contains_here [of "u @ v" b] by simp

lemma encode_close: "encode_utf8 (connection_headers False) = ''Connection: close'' @ CRLF2"
  by (simp add: connection_headers_def CRLF2_def CR_def LF_def encode_char_ascii)

lemma encode_keep_alive:
  "encode_utf8 (connection_headers True)
     = (''Connection: keep-alive'' @ CRLF) @ ''Keep-Alive: timeout=30, max=100'' @ CRLF2"
  by (simp add: connection_headers_def CRLF_def CRLF2_def CR_def LF_def encode_char_ascii)

lemma says_close_error: "says_close (error_response c m False x)"
  unfolding says_close_def error_response_def Let_def encode_utf8_append encode_close append_assoc
  by (rule contains_here2 | rule contains_skip)+

lemma says_close_get: "says_close (get_response ct content d f False)"
  unfolding says_close_def get_response_def Let_def encode_utf8_append encode_close append_assoc
  by (rule contains_here2 | rule contains_skip)+

lemma says_close_post: "says_close (post_response f d False)"
  unfolding says_close_def post_response_def Let_def encode_utf8_append encode_close append_assoc
  by (rule contains_here2 | rule contains_skip)+

lemma says_keep_alive_error: "says_keep_alive (error_response c m True x)"
  unfolding says_keep_alive_def error_response_def Let_def encode_utf8_append encode_keep_alive append_assoc
  by (rule contains_here2 | rule contains_skip)+

lemma says_keep_alive_get: "says_keep_alive (get_response ct content d f True)"
  unfolding says_keep_alive_def get_response_def Let_def encode_utf8_append encode_keep_alive append_assoc
  by (rule contains_here2 | rule contains_skip)+

lemma says_keep_alive_post: "says_keep_alive (post_response f d True)"
  unfolding says_keep_alive_def post_response_def Let_def encode_utf8_append encode_keep_alive append_assoc
  by (rule contains_here2 | rule contains_skip)+

lemma allowed_False_says_close: "allowed False (Ev_send r) \<Longrightarrow> says_close r"
  by (auto elim!: allowed.cases simp: says_close_error says_close_get says_close_post
        forced_close_errors_def)

lemma sends_says_close: "list_all (allowed False) evs \<Longrightarrow> list_all says_close (sends evs)"
  by (induction evs rule: sends.induct) (auto simp: allowed_False_says_close)

section \<open>Concrete evaluations and further facts\<close>

lemma error_500_bytes:
  "error_response 500 ''Internal Server Error'' False [] =
     ''HTTP/1.1 500 Internal Server Error'' @ CRLF
     @ ''Content-Type: text/html; charset=utf-8'' @ CRLF
     @ ''Content-Length: 60'' @ CRLF
     @ ''Connection: close'' @ CRLF2
     @ ''<html><body><h1>500 Internal Server Error</h1></body></html>''"
proof -
  have n: "show_nat 500 = ''500''" "show_nat 60 = ''60''"
    by (simp_all add: show_nat_numeral digit_chars)
  have l: "length (''<html><body><h1>'' @ ''500'' @ '' '' @ ''Internal Server Error''
                   @ ''</h1></body></html>'') = 60"
    by simp
  show ?thesis
    unfolding error_response_def Let_def n l
    by (simp add: connection_headers_def CRLF_def CRLF2_def CR_def LF_def encode_char_ascii)
qed

lemma parse_get_absent:
  "parse_request get_absent_request =
     Inr \<lparr>req_method = ''GET'', req_path = ''/absent.html'', req_version = ''HTTP/1.0'',
          req_headers = [''host'' \<mapsto> ''127.0.0.1:8080''], req_body = []\<rparr>"
  by (simp add: parse_request_def get_absent_request_def parse_headers_def string_eval)

lemma on_exception_ok:
  "fst r = Inr fl \<Longrightarrow> on_exception env r = r"
  by (cases r) (simp add: on_exception_def)

lemma error_404_bytes:
  "error_response 404 ''Not Found'' False [] =
     ''HTTP/1.1 404 Not Found'' @ CRLF
     @ ''Content-Type: text/html; charset=utf-8'' @ CRLF
     @ ''Content-Length: 48'' @ CRLF
     @ ''Connection: close'' @ CRLF2
     @ ''<html><body><h1>404 Not Found</h1></body></html>''"
proof -
  have n: "show_nat 404 = ''404''" "show_nat 48 = ''48''"
    by (simp_all add: show_nat_numeral digit_chars)
  have l: "length (''<html><body><h1>'' @ ''404'' @ '' '' @ ''Not Found''
                   @ ''</h1></body></html>'') = 48"
    by simp
  show ?thesis
    unfolding error_response_def Let_def n l
    by (simp add: connection_headers_def CRLF_def CRLF2_def CR_def LF_def encode_char_ascii)
qed

lemma error_503_bytes:
  "error_response 503 ''Service Unavailable'' False [(''Retry-After'', ''10'')] =
     ''HTTP/1.1 503 Service Unavailable'' @ CRLF
     @ ''Content-Type: text/html; charset=utf-8'' @ CRLF
     @ ''Content-Length: 58'' @ CRLF
     @ ''Retry-After: 10'' @ CRLF
     @ ''Connection: close'' @ CRLF2
     @ ''<html><body><h1>503 Service Unavailable</h1></body></html>''"
proof -
  have n: "show_nat 503 = ''503''" "show_nat 58 = ''58''"
    by (simp_all add: show_nat_numeral digit_chars)
  have l: "length (''<html><body><h1>'' @ ''503'' @ '' '' @ ''Service Unavailable''
                   @ ''</h1></body></html>'') = 58"
    by simp
  show ?thesis
    unfolding error_response_def Let_def n l
    by (simp add: connection_headers_def CRLF_def CRLF2_def CR_def LF_def encode_char_ascii)
qed

lemma digit_char_Suc_0: "digit_char (Suc 0) = CHR ''1''"
  using digit_chars(2) by simp

lemma error_415_bytes:
  "error_response 415 ''Unsupported Media Type'' False [] =
     ''HTTP/1.1 415 Unsupported Media Type'' @ CRLF
     @ ''Content-Type: text/html; charset=utf-8'' @ CRLF
     @ ''Content-Length: 61'' @ CRLF
     @ ''Connection: close'' @ CRLF2
     @ ''<html><body><h1>415 Unsupported Media Type</h1></body></html>''"
proof -
  have n: "show_nat 415 = ''415''" "show_nat 61 = ''61''"
    by (simp_all add: show_nat_numeral digit_chars digit_char_Suc_0)
  have l: "length (''<html><body><h1>'' @ ''415'' @ '' '' @ ''Unsupported Media Type''
                   @ ''</h1></body></html>'') = 61"
    by simp
  show ?thesis
    unfolding error_response_def Let_def n l
    by (simp add: connection_headers_def CRLF_def CRLF2_def CR_def LF_def encode_char_ascii)
qed

lemma accept_below_capacity:
  "length q < MAX_QUEUE_SIZE \<Longrightarrow> accept_connection env q c s = (Inr (q @ [c]), s)"
  by (simp add: accept_connection_def put_nowait_def)

lemma accept_at_capacity:
  "MAX_QUEUE_SIZE \<le> length q \<Longrightarrow>
   accept_connection env q c s =
     (if send_oracle env (tick s) = Send_ok
      then (Inr q, close (advance (emit (Ev_send (error_response 503 ''Service Unavailable'' False
                                                    [(''Retry-After'', ''10'')])) s)))
      else (Inl (if send_oracle env (tick s) = Send_timeout then SocketTimeout else OSError),
            advance (emit (Ev_send (error_response 503 ''Service Unavailable'' False
                                      [(''Retry-After'', ''10'')])) s)))"
  by (simp add: accept_connection_def put_nowait_def MAX_QUEUE_SIZE_def send_error_def sendall_def
        split: send_outcome.splits)

lemma suffix_after_dotless:
  assumes "CHR ''.'' \<notin> set a"
  shows "suffix (CHR ''.'' # rest) (a @ p) \<longleftrightarrow> suffix (CHR ''.'' # rest) p"
proof
  assume "suffix (CHR ''.'' # rest) (a @ p)"
  then obtain zs where zs: "a @ p = zs @ CHR ''.'' # rest" by (auto simp: suffix_def)
  then consider us where "a = zs @ us" "us @ p = CHR ''.'' # rest"
    | us where "a @ us = zs" "p = us @ CHR ''.'' # rest"
    by (auto simp: append_eq_append_conv2)
  then show "suffix (CHR ''.'' # rest) p"
  proof cases
    case 1
    show ?thesis
    proof (cases us)
      case Nil
      with 1 show ?thesis by simp
    next
      case (Cons u us')
      with 1 have "u = CHR ''.''" by simp
      with Cons 1 assms show ?thesis by simp
    qed
  next
    case 2
    then show ?thesis by (simp add: suffix_def)
  qed
next
  assume "suffix (CHR ''.'' # rest) p"
  then show "suffix (CHR ''.'' # rest) (a @ p)" by (simp add: suffix_appendI)
qed

lemma content_type_of_resources:
  "content_type_of (''resources'' @ p) = None \<longleftrightarrow>
     \<not> (suffix ''.html'' p \<or> suffix ''.txt'' p \<or> suffix ''.png'' p \<or> suffix ''.jpg'' p
        \<or> suffix ''.jpeg'' p)"
proof -
  have "CHR ''.'' \<notin> set ''resources''" by simp
  then have "suffix (CHR ''.'' # rest) (''resources'' @ p) \<longleftrightarrow> suffix (CHR ''.'' # rest) p" for rest
    by (rule suffix_after_dotless)
  then show ?thesis unfolding content_type_of_def by simp
qed

lemma unsupported_after_read:
  assumes "\<not> contains ''..'' (served_path p)"
    and "\<not> (suffix ''.html'' (served_path p) \<or> suffix ''.txt'' (served_path p)
            \<or> suffix ''.png'' (served_path p) \<or> suffix ''.jpg'' (served_path p)
            \<or> suffix ''.jpeg'' (served_path p))"
  shows "(files s (''resources'' @ served_path p) = Content c \<longrightarrow>
            trace (snd (serve_get_request env p ka s)) =
              trace s @ [Ev_open_rb (''resources'' @ served_path p),
                         Ev_send (error_response 415 ''Unsupported Media Type'' False [])])
       \<and> (files s (''resources'' @ served_path p) = Missing \<longrightarrow>
            trace (snd (serve_get_request env p ka s)) =
              trace s @ [Ev_open_rb (''resources'' @ served_path p),
                         Ev_send (error_response 404 ''Not Found'' False [])])
       \<and> (files s (''resources'' @ served_path p) = Denied \<longrightarrow>
            serve_get_request env p ka s =
              (Inl OSError, emit (Ev_open_rb (''resources'' @ served_path p)) s))"
  using assms content_type_of_resources [of "served_path p"]
  by (auto simp: get_unsupported get_missing get_denied)

section \<open>Uploads, extensions and keep-alive: further facts\<close>

lemma upload_filename_inj:
  assumes "length r1 = length r2"
  shows "upload_filename t1 r1 = upload_filename t2 r2 \<longleftrightarrow> t1 = t2 \<and> r1 = r2"
proof
  assume "upload_filename t1 r1 = upload_filename t2 r2"
  then have "(t1 @ ''_'') @ (r1 @ ''.json'') = (t2 @ ''_'') @ (r2 @ ''.json'')"
    by (simp add: upload_filename_def)
  moreover have "length (r1 @ ''.json'') = length (r2 @ ''.json'')" using assms by simp
  ultimately have "t1 @ ''_'' = t2 @ ''_'' \<and> r1 @ ''.json'' = r2 @ ''.json''"
    by (metis append_eq_append_conv)
  then show "t1 = t2 \<and> r1 = r2" by simp
qed simp

lemma length_random_choices [simp]: "length (fst (random_choices env population k s)) = k"
  by (simp add: random_choices_def)

lemma generated_filename_eq:
  "generated_filename env1 s1 = generated_filename env2 s2 \<longleftrightarrow>
     stamp_oracle env1 (tick s1) = stamp_oracle env2 (tick s2) \<and> random_id env1 s1 = random_id env2 s2"
  unfolding generated_filename_def random_id_def by (rule upload_filename_inj) simp

lemma post_created:
  assumes "prefix ''application/json'' (header_get h ''content-type'' [])"
    "json_loads env b = Json_value j"
    "files s (''resources/uploads/'' @ generated_filename env s) \<noteq> Denied"
    "send_oracle env (tick s + 3) = Send_ok"
  shows "fst (serve_post_request env h b ka s) = Inr ()"
    and "trace (snd (serve_post_request env h b ka s)) =
           trace s @ [Ev_open_w (''resources/uploads/'' @ generated_filename env s),
                      Ev_send (post_response (generated_filename env s)
                                 (date_oracle env (tick s + 2)) ka)]"
    and "files (snd (serve_post_request env h b ka s)) (''resources/uploads/'' @ generated_filename env s)
           = Content (json_dump env j)"
  using assms by (simp_all add: post_written Let_def sendall_def numeral_3_eq_3 numeral_2_eq_2)

lemma encode_utf8_ascii: "\<forall>c\<in>set s. (of_char c :: nat) < 128 \<Longrightarrow> encode_utf8 s = s"
  by (induction s) (simp_all add: encode_char_def)

lemma hex_digit_ascii: "(of_char (hex_digit d) :: nat) < 128"
proof -
  have "hex_digit d \<in> set ''0123456789abcdef''"
    unfolding hex_digit_def by (rule nth_mem) simp
  then show ?thesis by auto
qed

lemma json_escape_ascii: "c' \<in> set (json_escape_char c) \<Longrightarrow> (of_char c' :: nat) < 128"
  using hex_digit_ascii
  by (auto simp: json_escape_char_def Let_def DQ_def split: if_splits)

lemma encode_json_quote: "encode_utf8 (json_quote x) = json_quote x"
  by (rule encode_utf8_ascii) (auto simp: json_quote_def DQ_def dest: json_escape_ascii)

lemma contains_here3: "contains (u @ v @ w) (u @ v @ w @ b)"
  using contains_here [of "u @ v @ w" b] by simp

lemma encode_colon: "encode_utf8 '': '' = '': ''"
  by (simp add: encode_char_ascii)

lemma post_response_filepath:
  "contains (json_quote ''filepath'' @ '': '' @ json_quote (''/uploads/'' @ f))
     (post_response f d ka)"
  unfolding post_response_def Let_def json_dumps_dict_def json_members.simps
    encode_utf8_append encode_json_quote encode_colon append_assoc
  by (rule contains_here3 | rule contains_skip)+

lemma post_response_status: "prefix ''HTTP/1.1 201 Created'' (post_response f d ka)"
  by (simp add: post_response_def Let_def encode_char_ascii)

lemma four_draws_of_zero:
  "map (\<lambda>i. (ascii_lowercase @ digits) ! (0 mod length (ascii_lowercase @ digits))) [0..<4] = ''aaaa''"
  by code_simp

lemma demo_generated:
  "stamp_oracle env = (\<lambda>_. ''20240101_000000'') \<Longrightarrow> rand_oracle env = (\<lambda>_ _. 0) \<Longrightarrow>
   generated_filename env s = ''upload_20240101_000000_aaaa.json''"
  by (simp only: generated_filename_def upload_filename_def random_choices_def fst_conv
        four_draws_of_zero) simp

lemma parse_post_json:
  "parse_request post_json_request =
     Inr \<lparr>req_method = ''POST'', req_path = ''/upload'', req_version = ''HTTP/1.0'',
          req_headers = [''host'' \<mapsto> ''127.0.0.1:8080'',
                         ''content-type'' \<mapsto> ''application/json''],
          req_body = ''{}''\<rparr>"
  by (simp add: parse_request_def post_json_request_def parse_headers_def string_eval)

lemma two_posts:
  assumes "prefix ''application/json'' (header_get h1 ''content-type'' [])"
    and "prefix ''application/json'' (header_get h2 ''content-type'' [])"
    and "json_loads env1 body = Json_value j1"
    and "json_loads env2 body = Json_value j2"
    and "files s1 (''resources/uploads/'' @ generated_filename env1 s1) \<noteq> Denied"
    and "files s2 (''resources/uploads/'' @ generated_filename env2 s2) \<noteq> Denied"
    and "send_oracle env1 (tick s1 + 3) = Send_ok"
    and "send_oracle env2 (tick s2 + 3) = Send_ok"
  shows "sends (trace (snd (serve_post_request env1 h1 body ka1 s1))) =
           sends (trace s1) @ [post_response (generated_filename env1 s1) (date_oracle env1 (tick s1 + 2)) ka1]
       \<and> sends (trace (snd (serve_post_request env2 h2 body ka2 s2))) =
           sends (trace s2) @ [post_response (generated_filename env2 s2) (date_oracle env2 (tick s2 + 2)) ka2]
       \<and> prefix ''HTTP/1.1 201 Created''
            (post_response (generated_filename env1 s1) (date_oracle env1 (tick s1 + 2)) ka1)
       \<and> prefix ''HTTP/1.1 201 Created''
            (post_response (generated_filename env2 s2) (date_oracle env2 (tick s2 + 2)) ka2)
       \<and> contains (json_quote ''filepath'' @ '': '' @ json_quote (''/uploads/'' @ generated_filename env1 s1))
            (post_response (generated_filename env1 s1) (date_oracle env1 (tick s1 + 2)) ka1)
       \<and> contains (json_quote ''filepath'' @ '': '' @ json_quote (''/uploads/'' @ generated_filename env2 s2))
            (post_response (generated_filename env2 s2) (date_oracle env2 (tick s2 + 2)) ka2)
       \<and> (generated_filename env1 s1 = generated_filename env2 s2 \<longleftrightarrow>
            stamp_oracle env1 (tick s1) = stamp_oracle env2 (tick s2)
            \<and> random_id env1 s1 = random_id env2 s2)"
proof (intro conjI)
  show "sends (trace (snd (serve_post_request env1 h1 body ka1 s1))) =
           sends (trace s1) @ [post_response (generated_filename env1 s1) (date_oracle env1 (tick s1 + 2)) ka1]"
    using post_created(2) [OF assms(1,3,5,7), of ka1] by simp
  show "sends (trace (snd (serve_post_request env2 h2 body ka2 s2))) =
           sends (trace s2) @ [post_response (generated_filename env2 s2) (date_oracle env2 (tick s2 + 2)) ka2]"
    using post_created(2) [OF assms(2,4,6,8), of ka2] by simp
  show "generated_filename env1 s1 = generated_filename env2 s2 \<longleftrightarrow>
            stamp_oracle env1 (tick s1) = stamp_oracle env2 (tick s2)
            \<and> random_id env1 s1 = random_id env2 s2"
    by (rule generated_filename_eq)
qed (rule post_response_status post_response_filepath)+

lemma post_env_run:
  assumes nd: "\<And>p. files s p \<noteq> Denied"
  shows "trace (handle_connection post_env s) =
           trace s @ [Ev_settimeout 30, Ev_recv 8192,
             Ev_open_w ''resources/uploads/upload_20240101_000000_aaaa.json'',
             Ev_send (post_response ''upload_20240101_000000_aaaa.json''
                        ''Mon, 01 Jan 2024 00:00:00 GMT'' False),
             Ev_close]"
    and "\<And>p. files (handle_connection post_env s) p \<noteq> Denied"
proof -
  let ?s1 = "after_recv s"
  let ?h = "[''host'' \<mapsto> ''127.0.0.1:8080'', ''content-type'' \<mapsto> ''application/json'']"
  let ?req = "\<lparr>req_method = ''POST'', req_path = ''/upload'', req_version = ''HTTP/1.0'',
          req_headers = ?h, req_body = ''{}''\<rparr>"
  let ?fp = "''resources/uploads/upload_20240101_000000_aaaa.json''"
  let ?r = "post_response ''upload_20240101_000000_aaaa.json'' ''Mon, 01 Jan 2024 00:00:00 GMT'' False"
  have g: "generated_filename post_env ?s1 = ''upload_20240101_000000_aaaa.json''"
    by (rule demo_generated) (simp_all add: post_env_def demo_env_def)
  have env: "HOST post_env @ '':'' @ show_nat (PORT post_env) = ''127.0.0.1:8080''"
    "\<And>k. send_oracle post_env k = Send_ok" "\<And>k. date_oracle post_env k = ''Mon, 01 Jan 2024 00:00:00 GMT''"
    "json_loads post_env ''{}'' = Json_value ()" "\<And>k. recv_oracle post_env k = Recv_text post_json_request"
    using demo_address by (simp_all add: post_env_def demo_env_def)
  have ka: "\<not> should_keep_alive ?req 1"
    by (simp add: should_keep_alive_def decide_keep_alive_def header_get_def suffix_to_prefix lower_def)
  have ct: "prefix ''application/json'' (header_get ?h ''content-type'' [])"
    by (simp add: header_get_def)
  have nd1: "files ?s1 (''resources/uploads/'' @ generated_filename post_env ?s1) \<noteq> Denied"
    using nd by (simp add: after_recv_def settimeout_def)
  have post: "serve_post_request post_env ?h ''{}'' False ?s1
     = (Inr (), advance (emit (Ev_send ?r)
          (advance ((emit (Ev_open_w ?fp) (advance (advance ?s1)))
                      \<lparr>files := (files ?s1)(?fp := Content (json_dump post_env ()))\<rparr>))))"
    using post_written [OF ct env(4) nd1, of False] g env(2,3)
    by (simp add: Let_def sendall_def)
  have "respond post_env 1 ?req ?s1 = (Inr Break, snd (serve_post_request post_env ?h ''{}'' False ?s1))"
    using ka env(1) by (simp add: respond_def post after_response_def)
  then have it: "iteration post_env 0 s = (Inr Break, snd (serve_post_request post_env ?h ''{}'' False ?s1))"
    using env(5) by (simp add: iteration_cases process_request_def parse_post_json on_exception_ok)
       (simp add: post_json_request_def)
  then have hc: "handle_connection post_env s = close (snd (serve_post_request post_env ?h ''{}'' False ?s1))"
    by (simp add: handle_connection_eq loop_stops)
  show "trace (handle_connection post_env s) =
           trace s @ [Ev_settimeout 30, Ev_recv 8192, Ev_open_w ?fp, Ev_send ?r, Ev_close]"
    unfolding hc post by simp
  show "\<And>p. files (handle_connection post_env s) p \<noteq> Denied"
    unfolding hc post using nd by (simp add: close_def after_recv_def settimeout_def)
qed

lemma parse_get_index:
  "parse_request get_index_request =
     Inr \<lparr>req_method = ''GET'', req_path = ''/'', req_version = ''HTTP/1.1'',
          req_headers = [''host'' \<mapsto> ''127.0.0.1:8080''], req_body = []\<rparr>"
  by (simp add: parse_request_def get_index_request_def parse_headers_def string_eval)

lemma error_403_bytes:
  "error_response 403 ''Forbidden'' False [] =
     ''HTTP/1.1 403 Forbidden'' @ CRLF
     @ ''Content-Type: text/html; charset=utf-8'' @ CRLF
     @ ''Content-Length: 48'' @ CRLF
     @ ''Connection: close'' @ CRLF2
     @ ''<html><body><h1>403 Forbidden</h1></body></html>''"
proof -
  have n: "show_nat 403 = ''403''" "show_nat 48 = ''48''"
    by (simp_all add: show_nat_numeral digit_chars)
  have l: "length (''<html><body><h1>'' @ ''403'' @ '' '' @ ''Forbidden''
                   @ ''</h1></body></html>'') = 48"
    by simp
  show ?thesis
    unfolding error_response_def Let_def n l
    by (simp add: connection_headers_def CRLF_def CRLF2_def CR_def LF_def encode_char_ascii)
qed

lemma error_400_bytes:
  "error_response 400 ''Bad Request'' False [] =
     ''HTTP/1.1 400 Bad Request'' @ CRLF
     @ ''Content-Type: text/html; charset=utf-8'' @ CRLF
     @ ''Content-Length: 50'' @ CRLF
     @ ''Connection: close'' @ CRLF2
     @ ''<html><body><h1>400 Bad Request</h1></body></html>''"
proof -
  have n: "show_nat 400 = ''400''" "show_nat 50 = ''50''"
    by (simp_all add: show_nat_numeral digit_chars)
  have l: "length (''<html><body><h1>'' @ ''400'' @ '' '' @ ''Bad Request''
                   @ ''</h1></body></html>'') = 50"
    by simp
  show ?thesis
    unfolding error_response_def Let_def n l
    by (simp add: connection_headers_def CRLF_def CRLF2_def CR_def LF_def encode_char_ascii)
qed

lemma status_numbers:
  "show_nat 200 = ''200''" "show_nat 201 = ''201''" "show_nat 405 = ''405''"
  by (simp_all add: show_nat_numeral digit_chars digit_char_Suc_0)

lemma forced_status:
  assumes "r \<in> set forced_close_errors"
  shows "\<not> status_is 200 r" "\<not> status_is 201 r" "\<not> status_is 405 r"
  using assms
  by (auto simp: forced_close_errors_def status_is_def status_numbers error_403_bytes
        error_404_bytes error_415_bytes error_400_bytes error_500_bytes)

lemma allowed_True_send:
  "allowed True (Ev_send r) \<Longrightarrow> says_keep_alive r \<or> r \<in> set forced_close_errors"
  by (auto elim!: allowed.cases simp: says_keep_alive_error says_keep_alive_get says_keep_alive_post)

lemma sends_keep_alive:
  "list_all (allowed True) evs \<Longrightarrow>
   list_all (\<lambda>r. says_keep_alive r \<or> r \<in> set forced_close_errors) (sends evs)"
  by (induction evs rule: sends.induct) (auto dest: allowed_True_send)

lemma keep_alive_decided:
  "suffix ''/1.1'' (req_version req) \<Longrightarrow>
   lower (header_get (req_headers req) ''connection'' []) \<noteq> ''close'' \<Longrightarrow>
   rc < 100 \<Longrightarrow> should_keep_alive req rc"
  by (simp add: should_keep_alive_def decide_keep_alive_def)

lemma host_check_trace:
  assumes "req_headers req ''host'' \<noteq> Some (HOST env @ '':'' @ show_nat (PORT env))"
  shows "\<exists>c m. trace (snd (respond env rc req s)) =
           trace s @ [Ev_send (error_response c m (should_keep_alive req rc) [])]"
  using assms by (auto simp: respond_def Let_def split: option.splits)

lemma keep_alive_responses:
  assumes "parse_request d = Inr req"
    and "suffix ''/1.1'' (req_version req)"
    and "lower (header_get (req_headers req) ''connection'' []) \<noteq> ''close''"
    and "rc < 100"
  shows "should_keep_alive req rc
       \<and> (\<exists>evs. trace (snd (process_request env rc d s)) = trace s @ evs
             \<and> list_all (\<lambda>r. says_keep_alive r \<or> r \<in> set forced_close_errors) (sends evs)
             \<and> list_all (\<lambda>r. status_is 200 r \<or> status_is 201 r \<or> status_is 405 r
                              \<longrightarrow> says_keep_alive r) (sends evs)
             \<and> (req_headers req ''host'' \<noteq> Some (HOST env @ '':'' @ show_nat (PORT env))
                  \<longrightarrow> list_all says_keep_alive (sends evs)))"
proof -
  have ka: "should_keep_alive req rc" using assms(2-4) by (rule keep_alive_decided)
  have p: "process_request env rc d s = respond env rc req s"
    using assms(1) by (simp add: process_request_def)
  from respond_grows [of req rc s env] ka
  obtain evs where evs: "trace (snd (respond env rc req s)) = trace s @ evs" "list_all (allowed True) evs"
    by (auto simp: grows_def)
  from evs(2) have a: "list_all (\<lambda>r. says_keep_alive r \<or> r \<in> set forced_close_errors) (sends evs)"
    by (rule sends_keep_alive)
  then have b: "list_all (\<lambda>r. status_is 200 r \<or> status_is 201 r \<or> status_is 405 r
                              \<longrightarrow> says_keep_alive r) (sends evs)"
    by (auto simp: list_all_iff dest: forced_status)
  have c: "list_all says_keep_alive (sends evs)"
    if "req_headers req ''host'' \<noteq> Some (HOST env @ '':'' @ show_nat (PORT env))"
  proof -
    from host_check_trace [OF that, of rc s] ka evs(1)
    obtain c m where "evs = [Ev_send (error_response c m True [])]" by auto
    then show ?thesis by (simp add: says_keep_alive_error)
  qed
  from ka evs(1) a b c show ?thesis unfolding p by blast
qed

lemma index_response_close_bytes:
  "index_response False =
     ''HTTP/1.1 200 OK'' @ CRLF
     @ ''Content-Type: text/html; charset=utf-8'' @ CRLF
     @ ''Content-Length: 9'' @ CRLF
     @ ''Date: Mon, 01 Jan 2024 00:00:00 GMT'' @ CRLF
     @ ''Server: My Python HTTP Server'' @ CRLF
     @ ''Connection: close'' @ CRLF2
     @ ''<p>hi</p>''"
proof -
  have n: "show_nat (length ''<p>hi</p>'') = ''9''"
    by (simp add: show_nat.simps [of "Suc (Suc (Suc (Suc (Suc (Suc (Suc (Suc (Suc 0))))))))"]
          digit_char_def char_of_def bit_Suc_0_iff)
  show ?thesis
    unfolding index_response_def get_response_def Let_def n
    by (simp add: connection_headers_def CRLF_def CRLF2_def CR_def LF_def encode_char_ascii)
qed

lemma keep_alive_iteration:
  assumes "files s ''resources/index.html'' = Content ''<p>hi</p>''"
  shows "fst (iteration keep_alive_env rc s) = Inr (if rc < 99 then Continue else Break)"
    and "trace (snd (iteration keep_alive_env rc s)) =
           trace s @ [Ev_settimeout 30, Ev_recv 8192, Ev_open_rb ''resources/index.html'',
                      Ev_send (index_response (rc < 99))]"
    and "files (snd (iteration keep_alive_env rc s)) = files s"
proof -
  let ?s1 = "after_recv s"
  let ?req = "\<lparr>req_method = ''GET'', req_path = ''/'', req_version = ''HTTP/1.1'',
          req_headers = [''host'' \<mapsto> ''127.0.0.1:8080''], req_body = []\<rparr>"
  have env: "HOST keep_alive_env @ '':'' @ show_nat (PORT keep_alive_env) = ''127.0.0.1:8080''"
    "\<And>k. send_oracle keep_alive_env k = Send_ok"
    "\<And>k. date_oracle keep_alive_env k = ''Mon, 01 Jan 2024 00:00:00 GMT''"
    "\<And>k. recv_oracle keep_alive_env k = Recv_text get_index_request"
    using demo_address by (simp_all add: keep_alive_env_def demo_env_def)
  have ka: "should_keep_alive ?req (rc + 1) = (rc < 99)"
    by (auto simp: should_keep_alive_def decide_keep_alive_def header_get_def suffix_to_prefix lower_def)
  have f: "files ?s1 (''resources'' @ served_path ''/'') = Content ''<p>hi</p>''"
    using assms by (simp add: served_path_def after_recv_def settimeout_def)
  have ct: "content_type_of (''resources'' @ served_path ''/'') = Some ''text/html; charset=utf-8''"
    by (simp add: served_path_def content_type_of_def suffix_to_prefix)
  have nm: "last (split_all ''/'' (served_path ''/'')) = ''index.html''"
    by (simp add: served_path_def split_all_def)
  have get: "serve_get_request keep_alive_env ''/'' (rc < 99) ?s1
          = (Inr (), advance (emit (Ev_send (index_response (rc < 99)))
                       (advance (emit (Ev_open_rb ''resources/index.html'') ?s1))))"
    using get_ok [of "''/''" ?s1 "''<p>hi</p>''" "''text/html; charset=utf-8''" keep_alive_env "rc < 99"]
      f ct env(2,3)
    by (simp add: served_path_def nm [unfolded served_path_def, simplified] index_response_def sendall_def)
  have "respond keep_alive_env (rc + 1) ?req ?s1
          = (Inr (if rc < 99 then Continue else Break),
             advance (emit (Ev_send (index_response (rc < 99)))
                       (advance (emit (Ev_open_rb ''resources/index.html'') ?s1))))"
    using env(1) by (simp add: respond_def ka get after_response_def del: One_nat_def)
  then have it: "iteration keep_alive_env rc s
          = (Inr (if rc < 99 then Continue else Break),
             advance (emit (Ev_send (index_response (rc < 99)))
                       (advance (emit (Ev_open_rb ''resources/index.html'') ?s1))))"
    using env(4) by (simp add: iteration_cases process_request_def parse_get_index on_exception_ok
        del: One_nat_def)
       (simp add: get_index_request_def)
  show "fst (iteration keep_alive_env rc s) = Inr (if rc < 99 then Continue else Break)"
    unfolding it by simp
  show "trace (snd (iteration keep_alive_env rc s)) =
           trace s @ [Ev_settimeout 30, Ev_recv 8192, Ev_open_rb ''resources/index.html'',
                      Ev_send (index_response (rc < 99))]"
    unfolding it by simp
  show "files (snd (iteration keep_alive_env rc s)) = files s"
    unfolding it by (simp add: after_recv_def settimeout_def)
qed

lemma keep_alive_loop:
  assumes "files s ''resources/index.html'' = Content ''<p>hi</p>''" "rc + n = 99"
  shows "sends (trace (snd (connection_loop keep_alive_env rc s))) =
           sends (trace s) @ replicate n (index_response True) @ [index_response False]"
  using assms
proof (induction n arbitrary: rc s)
  case 0
  then have rc: "rc = 99" by simp
  have "fst (iteration keep_alive_env 99 s) \<noteq> Inr Continue"
    using keep_alive_iteration(1) [OF 0(1), of 99] by simp
  then have "snd (connection_loop keep_alive_env 99 s) = snd (iteration keep_alive_env 99 s)"
    by (intro loop_stops) simp_all
  then show ?case using keep_alive_iteration(2) [OF 0(1), of 99] rc by simp
next
  case (Suc n)
  then have rc: "rc < 99" "Suc rc + n = 99" by simp_all
  obtain s' where s': "iteration keep_alive_env rc s = (Inr Continue, s')"
    using keep_alive_iteration(1) [OF Suc(2), of rc] rc
    by (cases "iteration keep_alive_env rc s") simp
  have tr: "trace s' = trace s @ [Ev_settimeout 30, Ev_recv 8192, Ev_open_rb ''resources/index.html'',
                      Ev_send (index_response True)]"
    and fl: "files s' = files s"
    using keep_alive_iteration(2,3) [OF Suc(2), of rc] rc s' by simp_all
  have "connection_loop keep_alive_env rc s = connection_loop keep_alive_env (Suc rc) s'"
    using rc s' by (simp add: loop_step)
  moreover have "sends (trace (snd (connection_loop keep_alive_env (Suc rc) s'))) =
           sends (trace s') @ replicate n (index_response True) @ [index_response False]"
    using Suc.IH [of s' "Suc rc"] fl Suc(2) rc by simp
  ultimately show ?case using tr by simp
qed

section \<open>Every request is answered\<close>

text \<open>
  A handler either sends something or raises an exception other than \<open>socket.timeout\<close>,
  in which case the \<open>except Exception\<close> clause of the loop sends the 500 response.
\<close>

lemma get_answers:
  "(\<exists>e. fst (serve_get_request env p ka s) = Inl e \<and> e \<noteq> SocketTimeout)
   \<or> length (sends (trace s)) < length (sends (trace (snd (serve_get_request env p ka s))))"
proof (cases "contains ''..'' (served_path p)")
  case True
  then show ?thesis
    by (simp add: serve_get_request_def served_path_def Let_def)
next
  case False
  show ?thesis
  proof (cases "files s (''resources'' @ served_path p)")
    case Missing
    with False show ?thesis by (simp add: get_missing)
  next
    case Denied
    with False show ?thesis by (simp add: get_denied)
  next
    case (Content c)
    with False show ?thesis
      by (cases "content_type_of (''resources'' @ served_path p)")
         (simp_all add: get_unsupported get_ok)
  qed
qed

lemma post_answers:
  "(\<exists>e. fst (serve_post_request env h b ka s) = Inl e \<and> e \<noteq> SocketTimeout)
   \<or> length (sends (trace s)) < length (sends (trace (snd (serve_post_request env h b ka s))))"
proof (cases "prefix ''application/json'' (header_get h ''content-type'' [])")
  case False
  then show ?thesis by (simp add: post_not_json)
next
  case True
  show ?thesis
  proof (cases "json_loads env b")
    case (Json_value j)
    show ?thesis
    proof (cases "files s (''resources/uploads/'' @ generated_filename env s) = Denied")
      case True
      with \<open>prefix _ _\<close> Json_value show ?thesis
        by (simp add: post_denied)
    next
      case False
      with \<open>prefix _ _\<close> Json_value show ?thesis
        by (simp add: post_written Let_def)
    qed
  next
    case Json_decode_error
    with True show ?thesis by (simp add: post_bad_json)
  next
    case Json_recursion_error
    with True show ?thesis by (simp add: post_recursion)
  qed
qed

lemma respond_answers:
  "(\<exists>e. fst (respond env rc req s) = Inl e \<and> e \<noteq> SocketTimeout)
   \<or> length (sends (trace s)) < length (sends (trace (snd (respond env rc req s))))"
  using get_answers [of env "req_path req" "should_keep_alive req rc" s]
    post_answers [of env "req_headers req" "req_body req" "should_keep_alive req rc" s]
  by (auto simp: respond_def Let_def fst_after_response split: option.splits sum.splits)

lemma parse_error_not_timeout: "parse_request d = Inl e \<Longrightarrow> e \<noteq> SocketTimeout"
  by (auto simp: parse_request_def split: list.splits)

lemma process_answers:
  "(\<exists>e. fst (process_request env rc d s) = Inl e \<and> e \<noteq> SocketTimeout)
   \<or> length (sends (trace s)) < length (sends (trace (snd (process_request env rc d s))))"
proof (cases "parse_request d")
  case (Inl e)
  then show ?thesis by (simp add: process_request_def parse_error_not_timeout)
next
  case (Inr req)
  then show ?thesis using respond_answers [of env rc req s] by (simp add: process_request_def)
qed

lemma iteration_answers:
  assumes "recv_oracle env (tick s) = Recv_text d" "d \<noteq> []"
  shows "\<exists>evs ka. trace (snd (iteration env rc s)) = trace s @ Ev_settimeout 30 # Ev_recv 8192 # evs
        \<and> list_all (allowed ka) evs
        \<and> (99 \<le> rc \<longrightarrow> \<not> ka)
        \<and> (fst (iteration env rc s) = Inr Continue \<longrightarrow> ka)
        \<and> sends evs \<noteq> []"
proof -
  obtain evs ka where it:
    "trace (snd (iteration env rc s)) = trace s @ Ev_settimeout 30 # Ev_recv 8192 # evs"
    "list_all (allowed ka) evs" "99 \<le> rc \<longrightarrow> \<not> ka" "fst (iteration env rc s) = Inr Continue \<longrightarrow> ka"
    using iteration_shape [of env rc s] by blast
  let ?r = "process_request env (rc + 1) d (after_recv s)"
  have eq: "iteration env rc s = on_exception env ?r"
    using assms by (simp add: iteration_cases)
  obtain ka' where "grows (allowed ka') (after_recv s) (snd ?r)"
    using process_grows [of "after_recv s" env "rc + 1" d] by blast
  then obtain evs' where evs': "trace (snd ?r) = trace (after_recv s) @ evs'"
    by (auto simp: grows_def)
  have "length (sends (trace (after_recv s))) < length (sends (trace (snd (on_exception env ?r))))"
    using process_answers [of env "rc + 1" d "after_recv s"] evs'
    by (auto simp: snd_on_exception split: sum.splits)
  with it(1) have "sends evs \<noteq> []" unfolding eq by auto
  with it show ?thesis by blast
qed

lemma hundredth_iteration:
  "\<exists>evs. trace (snd (iteration env 99 s)) = trace s @ evs \<and> list_all says_close (sends evs)
        \<and> (recv_oracle env (tick s) = Recv_text d \<and> d \<noteq> [] \<longrightarrow> sends evs \<noteq> [])"
proof -
  obtain evs ka where it:
    "trace (snd (iteration env 99 s)) = trace s @ Ev_settimeout 30 # Ev_recv 8192 # evs"
    "list_all (allowed ka) evs" "\<not> ka"
    using iteration_shape [of env 99 s] by auto
  then have sc: "list_all says_close (sends evs)" by (simp add: sends_says_close)
  have ne: "sends evs \<noteq> []" if "recv_oracle env (tick s) = Recv_text d \<and> d \<noteq> []"
  proof -
    from that obtain evs' where
      "trace (snd (iteration env 99 s)) = trace s @ Ev_settimeout 30 # Ev_recv 8192 # evs'"
      "sends evs' \<noteq> []"
      using iteration_answers [of env s d 99] by blast
    with it(1) show ?thesis by simp
  qed
  from it(1) sc ne show ?thesis
    by (intro exI [of _ "Ev_settimeout 30 # Ev_recv 8192 # evs"]) simp
qed

lemma empty_read_trace:
  assumes "rc < 100" "recv_oracle env (tick s) = Recv_text []"
  shows "trace (close (snd (connection_loop env rc s))) =
           trace s @ [Ev_settimeout 30, Ev_recv 8192, Ev_close]"
proof -
  have it: "iteration env rc s = (Inr Break, after_recv s)"
    using assms(2) by (simp add: iteration_cases on_exception_def)
  then have "snd (connection_loop env rc s) = after_recv s"
    using assms(1) by (simp add: loop_stops)
  then show ?thesis by simp
qed

lemma unopenable_gets_500:
  assumes "\<not> contains ''..'' (served_path p)" "files s (''resources'' @ served_path p) = Denied"
  shows "serve_get_request env p ka s = (Inl OSError, emit (Ev_open_rb (''resources'' @ served_path p)) s)"
    and "trace (snd (on_exception env (after_response ka (serve_get_request env p ka s)))) =
           trace s @ [Ev_open_rb (''resources'' @ served_path p),
                      Ev_send (error_response 500 ''Internal Server Error'' False [])]"
    and "fst (on_exception env (after_response ka (serve_get_request env p ka s))) \<noteq> Inr Continue"
proof -
  show g: "serve_get_request env p ka s = (Inl OSError, emit (Ev_open_rb (''resources'' @ served_path p)) s)"
    using assms by (rule get_denied)
  show "trace (snd (on_exception env (after_response ka (serve_get_request env p ka s)))) =
           trace s @ [Ev_open_rb (''resources'' @ served_path p),
                      Ev_send (error_response 500 ''Internal Server Error'' False [])]"
    unfolding g by (simp add: snd_on_exception after_response_def)
  show "fst (on_exception env (after_response ka (serve_get_request env p ka s))) \<noteq> Inr Continue"
    unfolding g by (simp add: fst_on_exception_continue after_response_def)
qed

lemma unsupported_after_open:
  assumes "\<not> contains ''..'' (served_path p)"
    and "\<not> (suffix ''.html'' (served_path p) \<or> suffix ''.txt'' (served_path p)
            \<or> suffix ''.png'' (served_path p) \<or> suffix ''.jpg'' (served_path p)
            \<or> suffix ''.jpeg'' (served_path p))"
  shows "(files s (''resources'' @ served_path p) = Content c \<longrightarrow>
            trace (snd (serve_get_request env p ka s)) =
              trace s @ [Ev_open_rb (''resources'' @ served_path p),
                         Ev_send (error_response 415 ''Unsupported Media Type'' False [])])
       \<and> (files s (''resources'' @ served_path p) = Missing \<longrightarrow>
            trace (snd (serve_get_request env p ka s)) =
              trace s @ [Ev_open_rb (''resources'' @ served_path p),
                         Ev_send (error_response 404 ''Not Found'' False [])])
       \<and> (files s (''resources'' @ served_path p) = Denied \<longrightarrow>
            serve_get_request env p ka s =
              (Inl OSError, emit (Ev_open_rb (''resources'' @ served_path p)) s)
            \<and> trace (snd (on_exception env (after_response ka (serve_get_request env p ka s)))) =
                trace s @ [Ev_open_rb (''resources'' @ served_path p),
                           Ev_send (error_response 500 ''Internal Server Error'' False [])]
            \<and> fst (on_exception env (after_response ka (serve_get_request env p ka s)))
                \<noteq> Inr Continue)"
  using unsupported_after_read [OF assms, of s c env ka] unopenable_gets_500 [OF assms(1), of s env ka]
  by blast

lemma directory_unopenable:
  "fst (serve_get_request demo_env ''/uploads'' False directory_state) = Inl OSError"
  "sends (trace (snd (serve_get_request demo_env ''/uploads'' False directory_state))) = []"
  "opens (trace (snd (serve_get_request demo_env ''/uploads'' False directory_state)))
     = [''resources/uploads'']"
proof -
  have a: "\<not> contains ''..'' (served_path ''/uploads'')"
    "files directory_state (''resources'' @ served_path ''/uploads'') = Denied"
    "trace directory_state = []"
    by (simp_all add: served_path_def directory_state_def demo_state_def)
  note g = get_denied [OF a(1,2), of demo_env False]
  show "fst (serve_get_request demo_env ''/uploads'' False directory_state) = Inl OSError"
    unfolding g by simp
  show "sends (trace (snd (serve_get_request demo_env ''/uploads'' False directory_state))) = []"
    unfolding g using a(3) by simp
  show "opens (trace (snd (serve_get_request demo_env ''/uploads'' False directory_state)))
     = [''resources/uploads'']"
    unfolding g using a(3) by (simp add: served_path_def)
qed

lemma parse_request_Nil: "parse_request [] \<noteq> Inr req"
  by (simp add: parse_request_def CRLF2_def)

lemma keep_alive_answers:
  assumes "recv_oracle env (tick s) = Recv_text d"
    and "parse_request d = Inr req"
    and "suffix ''/1.1'' (req_version req)"
    and "lower (header_get (req_headers req) ''connection'' []) \<noteq> ''close''"
    and "rc < 99"
  shows "should_keep_alive req (rc + 1)
       \<and> (\<exists>evs. trace (snd (iteration env rc s)) = trace s @ [Ev_settimeout 30, Ev_recv 8192] @ evs
             \<and> sends evs \<noteq> []
             \<and> list_all (\<lambda>r. says_keep_alive r \<or> r \<in> set forced_close_errors) (sends evs)
             \<and> list_all (\<lambda>r. status_is 200 r \<or> status_is 201 r \<or> status_is 405 r
                              \<longrightarrow> says_keep_alive r) (sends evs)
             \<and> (req_headers req ''host'' \<noteq> Some (HOST env @ '':'' @ show_nat (PORT env))
                  \<longrightarrow> (\<exists>r. says_keep_alive r
                         \<and> (sends evs = [r]
                            \<or> sends evs = [r, error_response 500 ''Internal Server Error'' False []]))))"
proof -
  let ?s1 = "after_recv s"
  let ?r = "process_request env (rc + 1) d ?s1"
  let ?e500 = "error_response 500 ''Internal Server Error'' False []"
  have ne: "d \<noteq> []" using assms(2) parse_request_Nil by auto
  have it: "iteration env rc s = on_exception env ?r"
    using assms(1) ne by (simp add: iteration_cases)
  from assms(5) have rc: "rc + 1 < 100" by simp
  from keep_alive_responses [OF assms(2-4) rc, of env ?s1]
  obtain evs0 where ka: "should_keep_alive req (rc + 1)"
    and evs0: "trace (snd ?r) = trace ?s1 @ evs0"
      "list_all (\<lambda>r. says_keep_alive r \<or> r \<in> set forced_close_errors) (sends evs0)"
      "list_all (\<lambda>r. status_is 200 r \<or> status_is 201 r \<or> status_is 405 r
                              \<longrightarrow> says_keep_alive r) (sends evs0)"
    by blast
  define extra where "extra =
    (case fst ?r of Inl e \<Rightarrow> if e = SocketTimeout then [] else [Ev_send ?e500] | Inr _ \<Rightarrow> [])"
  have tr: "trace (snd (iteration env rc s)) = trace s @ [Ev_settimeout 30, Ev_recv 8192] @ (evs0 @ extra)"
    unfolding it using evs0(1) by (simp add: snd_on_exception extra_def split: sum.splits)
  have ex: "sends extra = [] \<or> sends extra = [?e500]"
    by (simp add: extra_def split: sum.splits)
  have f: "?e500 \<in> set forced_close_errors" by (simp add: forced_close_errors_def)
  have n: "sends (evs0 @ extra) \<noteq> []"
    using process_answers [of env "rc + 1" d ?s1] evs0(1)
    by (auto simp: extra_def split: sum.splits)
  have a: "list_all (\<lambda>r. says_keep_alive r \<or> r \<in> set forced_close_errors) (sends (evs0 @ extra))"
    using evs0(2) ex f by auto
  have b: "list_all (\<lambda>r. status_is 200 r \<or> status_is 201 r \<or> status_is 405 r
                              \<longrightarrow> says_keep_alive r) (sends (evs0 @ extra))"
    using evs0(3) ex forced_status [OF f] by auto
  have c: "\<exists>r. says_keep_alive r \<and> (sends (evs0 @ extra) = [r] \<or> sends (evs0 @ extra) = [r, ?e500])"
    if "req_headers req ''host'' \<noteq> Some (HOST env @ '':'' @ show_nat (PORT env))"
  proof -
    have p: "?r = respond env (rc + 1) req ?s1"
      using assms(2) by (simp add: process_request_def)
    from host_check_trace [OF that, of "rc + 1" ?s1] ka evs0(1) p
    obtain c m where "evs0 = [Ev_send (error_response c m True [])]" by auto
    with ex show ?thesis
      by (intro exI [of _ "error_response c m True []"]) (auto simp: says_keep_alive_error)
  qed
  from ka tr n a b c show ?thesis by blast
qed

lemma index_response_status: "status_is 200 (index_response ka)"
  by (simp add: status_is_def status_numbers index_response_def get_response_def Let_def
        encode_char_ascii)

lemma parse_get_absent_http11:
  "parse_request get_absent_http11_request =
     Inr \<lparr>req_method = ''GET'', req_path = ''/absent.html'', req_version = ''HTTP/1.1'',
          req_headers = [''host'' \<mapsto> ''127.0.0.1:8080''], req_body = []\<rparr>"
  by (simp add: parse_request_def get_absent_http11_request_def parse_headers_def string_eval)

lemma absent_http11_run:
  "trace (handle_connection absent_http11_env demo_state) =
     [Ev_settimeout 30, Ev_recv 8192, Ev_open_rb ''resources/absent.html'',
      Ev_send (error_response 404 ''Not Found'' False []),
      Ev_settimeout 30, Ev_recv 8192, Ev_close]"
proof -
  let ?s1 = "after_recv demo_state"
  let ?req = "\<lparr>req_method = ''GET'', req_path = ''/absent.html'', req_version = ''HTTP/1.1'',
          req_headers = [''host'' \<mapsto> ''127.0.0.1:8080''], req_body = []\<rparr>"
  let ?s2 = "advance (emit (Ev_send (error_response 404 ''Not Found'' False []))
                                   (emit (Ev_open_rb ''resources/absent.html'') ?s1))"
  have ka: "should_keep_alive ?req 1"
    by (simp add: should_keep_alive_def decide_keep_alive_def header_get_def suffix_to_prefix lower_def)
  have get: "serve_get_request absent_http11_env ''/absent.html'' True ?s1
          = send_error absent_http11_env 404 ''Not Found'' False []
              (emit (Ev_open_rb ''resources/absent.html'') ?s1)"
    using get_missing [of "''/absent.html''" ?s1 absent_http11_env True]
    by (simp add: served_path_def after_recv_def settimeout_def demo_state_def)
  have env: "HOST absent_http11_env @ '':'' @ show_nat (PORT absent_http11_env) = ''127.0.0.1:8080''"
    "\<And>k. send_oracle absent_http11_env k = Send_ok"
    "recv_oracle absent_http11_env 0 = Recv_text get_absent_http11_request"
    "\<And>k. recv_oracle absent_http11_env (Suc k) = Recv_timeout"
    using demo_address by (simp_all add: absent_http11_env_def demo_env_def)
  have "respond absent_http11_env 1 ?req ?s1 = (Inr Continue, ?s2)"
    using ka env by (simp add: respond_def get after_response_def send_error_def sendall_def)
  moreover have "get_absent_http11_request \<noteq> []" "tick demo_state = 0"
    by (simp_all add: get_absent_http11_request_def demo_state_def)
  ultimately have it0: "iteration absent_http11_env 0 demo_state = (Inr Continue, ?s2)"
    using env(3)
    by (simp add: iteration_cases process_request_def parse_get_absent_http11 on_exception_ok
          del: One_nat_def)
  have t2: "tick ?s2 = Suc (Suc 0)"
    by (simp add: after_recv_def settimeout_def demo_state_def)
  have it1: "iteration absent_http11_env (Suc 0) ?s2 = (Inr Break, after_recv ?s2)"
    using env(4) by (simp add: iteration_cases t2 on_exception_def)
  have "connection_loop absent_http11_env 0 demo_state = connection_loop absent_http11_env (Suc 0) ?s2"
    using it0 by (simp add: loop_step)
  also have "\<dots> = (Inr (), after_recv ?s2)"
    using it1 by (simp add: loop_step)
  finally show ?thesis
    by (simp add: handle_connection_eq demo_state_def)
qed

section \<open>Path traversal\<close>

text \<open>
  C4. A GET whose path, after \<open>/\<close> has been replaced by \<open>/index.html\<close>, contains
  \<open>..\<close> makes \<open>serve_get_request\<close> send the 403 response and nothing else: the only
  call added to the trace is that \<open>sendall\<close>, so no file is opened, and the file system
  is unchanged.
\<close>

theorem traversal_rejected_before_open:
  assumes "contains ''..'' (served_path path)"
  shows "trace (snd (serve_get_request env path keep_alive s))
           = trace s @ [Ev_send (error_response 403 ''Forbidden'' False [])]
         \<and> opens (trace (snd (serve_get_request env path keep_alive s))) = opens (trace s)
         \<and> files (snd (serve_get_request env path keep_alive s)) = files s"
proof -
  have "trace (snd (serve_get_request env path keep_alive s))
          = trace s @ [Ev_send (error_response 403 ''Forbidden'' False [])]"
    and "files (snd (serve_get_request env path keep_alive s)) = files s"
    using assms by (simp_all add: serve_get_request_def served_path_def Let_def)
  moreover have "opens (xs @ [Ev_send r]) = opens xs" for xs r
    by (induction xs rule: opens.induct) simp_all
  ultimately show ?thesis by simp
qed

theorem traversal_rejected_before_open_witness:
  "contains ''..'' (served_path ''/../secret.txt'')
   \<and> trace (snd (serve_get_request demo_env ''/../secret.txt'' True demo_state))
       = [Ev_send (error_response 403 ''Forbidden'' False [])]
   \<and> opens (trace (snd (serve_get_request demo_env ''/../secret.txt'' True demo_state))) = []"
  using traversal_rejected_before_open [of "''/../secret.txt''" demo_env True demo_state]
  by (simp add: demo_state_def served_path_def)

section \<open>Requests that cannot be parsed\<close>

text \<open>
  C1, as the code has it. Whenever the loop is entered with fewer than 100 requests counted
  and the read returns non-empty text that has no blank line, or whose request line has
  fewer than three space-separated tokens, the handler sends the 500 response (not a 400),
  reads nothing more, and closes the socket.
\<close>

theorem unparsable_request_gets_500_then_close:
  assumes "request_count < 100"
    and "recv_oracle env (tick s) = Recv_text request_data"
    and "request_data \<noteq> []"
    and "\<not> contains CRLF2 request_data \<or> length (request_line_tokens request_data) < 3"
  shows "trace (close (snd (connection_loop env request_count s))) =
           trace s @ [Ev_settimeout 30, Ev_recv 8192,
                      Ev_send (error_response 500 ''Internal Server Error'' False []), Ev_close]"
proof -
  from assms(4) have "\<exists>e. parse_request request_data = Inl e"
    by (simp add: parse_request_fails)
  with assms(1-3) show ?thesis
    by (intro fatal_trace [where d = request_data]) simp_all
qed

theorem unparsable_request_gets_500_then_close_witness:
  "(0::nat) < 100
   \<and> recv_oracle garbage_env (tick demo_state) = Recv_text ''hello''
   \<and> \<not> contains CRLF2 ''hello''
   \<and> trace (close (snd (connection_loop garbage_env 0 demo_state))) =
       [Ev_settimeout 30, Ev_recv 8192,
        Ev_send (error_response 500 ''Internal Server Error'' False []), Ev_close]"
  using unparsable_request_gets_500_then_close [of 0 garbage_env demo_state "''hello''"]
  by (simp add: garbage_env_def demo_env_def demo_state_def CRLF2_def CR_def LF_def)

text \<open>
  The claim as stated asks for a 400: on the text \<open>hello\<close> the only response sent is the
  500 response.
\<close>

theorem parse_failure_is_not_400_counterexample:
  "sends (trace (handle_connection garbage_env demo_state))
     = [error_response 500 ''Internal Server Error'' False []]
   \<and> prefix ''HTTP/1.1 500 Internal Server Error'' (error_response 500 ''Internal Server Error'' False [])
   \<and> \<not> prefix ''HTTP/1.1 400'' (error_response 500 ''Internal Server Error'' False [])"
proof -
  have "\<exists>e. parse_request ''hello'' = Inl e"
    by (simp add: parse_request_fails CRLF2_def CR_def LF_def)
  then have "trace (close (snd (connection_loop garbage_env 0 demo_state))) =
       trace demo_state @ [Ev_settimeout 30, Ev_recv 8192,
        Ev_send (error_response 500 ''Internal Server Error'' False []), Ev_close]"
    by (intro fatal_trace [where d = "''hello''"]) (simp_all add: garbage_env_def demo_env_def)
  then have "sends (trace (handle_connection garbage_env demo_state))
     = [error_response 500 ''Internal Server Error'' False []]"
    by (simp add: handle_connection_eq demo_state_def)
  then show ?thesis by (simp add: error_500_bytes)
qed

section \<open>The request ceiling\<close>

text \<open>
  C2. On every connection at most 100 reads are made, so at most 100 requests are served.
  With 100 requests counted the flag \<open>should_keep_alive\<close> is off whatever the request
  says; the iteration that serves the 100th request never continues the loop, and the loop
  returns right after it; when the read of that iteration returns text that is not empty, a
  response is sent, and every response the iteration sends ends its header block with
  \<open>Connection: close\<close>; with 100 requests counted the loop reads nothing, so there is
  no 101st request.
\<close>

theorem request_cap:
  "(\<exists>evs. trace (handle_connection env s) = trace s @ evs @ [Ev_close] \<and> length (recvs evs) \<le> 100)
   \<and> \<not> should_keep_alive req 100
   \<and> fst (iteration env 99 s) \<noteq> Inr Continue
   \<and> snd (connection_loop env 99 s) = snd (iteration env 99 s)
   \<and> (\<exists>evs. trace (snd (iteration env 99 s)) = trace s @ evs \<and> list_all says_close (sends evs)
         \<and> (recv_oracle env (tick s) = Recv_text request_data \<and> request_data \<noteq> []
              \<longrightarrow> sends evs \<noteq> []))
   \<and> connection_loop env 100 s = (Inr (), s)"
proof -
  obtain evs ka where it:
    "trace (snd (iteration env 99 s)) = trace s @ Ev_settimeout 30 # Ev_recv 8192 # evs"
    "list_all (allowed ka) evs" "\<not> ka" "fst (iteration env 99 s) = Inr Continue \<longrightarrow> ka"
    using iteration_shape [of env 99 s] by auto
  then have nc: "fst (iteration env 99 s) \<noteq> Inr Continue" by blast
  moreover have "\<exists>evs. trace (handle_connection env s) = trace s @ evs @ [Ev_close] \<and> length (recvs evs) \<le> 100"
    using closed_on_return [of env s] by blast
  ultimately show ?thesis
    using hundredth_iteration [of env s request_data]
    by (simp add: keep_alive_capped loop_stops loop_done)
qed

text \<open>
  The 100th GET for \<open>/\<close> over HTTP/1.1, which asks for keep-alive, is answered with the
  200 response that says \<open>Connection: close\<close>, and the loop is left.
\<close>

theorem request_cap_witness:
  "recv_oracle keep_alive_env (tick demo_state) = Recv_text get_index_request
   \<and> get_index_request \<noteq> []
   \<and> sends (trace (snd (iteration keep_alive_env 99 demo_state))) = [index_response False]
   \<and> says_close (index_response False)
   \<and> fst (iteration keep_alive_env 99 demo_state) = Inr Break"
proof -
  have r: "recv_oracle keep_alive_env (tick demo_state) = Recv_text get_index_request"
    by (simp add: keep_alive_env_def)
  have n: "get_index_request \<noteq> []" by (simp add: get_index_request_def)
  have f: "files demo_state ''resources/index.html'' = Content ''<p>hi</p>''"
    by (simp add: demo_state_def)
  have t: "trace (snd (iteration keep_alive_env 99 demo_state)) =
           trace demo_state @ [Ev_settimeout 30, Ev_recv 8192, Ev_open_rb ''resources/index.html'',
                      Ev_send (index_response False)]"
    using keep_alive_iteration(2) [OF f, of 99] by simp
  have b: "fst (iteration keep_alive_env 99 demo_state) = Inr Break"
    using keep_alive_iteration(1) [OF f, of 99] by simp
  from request_cap [of keep_alive_env demo_state _ get_index_request] r n
  obtain evs where evs: "trace (snd (iteration keep_alive_env 99 demo_state)) = trace demo_state @ evs"
    "list_all says_close (sends evs)" "sends evs \<noteq> []"
    by blast
  from evs(1) t have "evs = [Ev_settimeout 30, Ev_recv 8192, Ev_open_rb ''resources/index.html'',
                      Ev_send (index_response False)]"
    by simp
  then have "sends evs = [index_response False]" by simp
  with evs(2) have "says_close (index_response False)" by simp
  moreover from t have "sends (trace (snd (iteration keep_alive_env 99 demo_state))) = [index_response False]"
    by (simp add: demo_state_def)
  ultimately show ?thesis using r n b by simp
qed

section \<open>One read per request\<close>

text \<open>
  C9, as the code has it. Each iteration makes exactly one \<open>recv\<close>, of 8192 bytes at
  most, and what it processes is the text of that read alone. When the bytes are not UTF-8,
  or the text is not empty and has no blank line, the handler sends the 500 response, reads
  nothing more and closes the socket. When the text is empty the handler sends nothing, reads
  nothing more and closes the socket.
\<close>

theorem one_read_per_iteration:
  assumes "request_count < 100"
  shows "(\<exists>evs. trace (snd (iteration env request_count s)) = trace s @ evs \<and> recvs evs = [8192])
    \<and> (recv_oracle env (tick s) = Recv_text d \<and> d \<noteq> [] \<longrightarrow>
         iteration env request_count s
           = on_exception env (process_request env (request_count + 1) d (after_recv s)))
    \<and> (recv_oracle env (tick s) = Recv_undecodable
         \<or> (recv_oracle env (tick s) = Recv_text d \<and> d \<noteq> [] \<and> \<not> contains CRLF2 d) \<longrightarrow>
         trace (close (snd (connection_loop env request_count s))) =
           trace s @ [Ev_settimeout 30, Ev_recv 8192,
                      Ev_send (error_response 500 ''Internal Server Error'' False []), Ev_close])
    \<and> (recv_oracle env (tick s) = Recv_text [] \<longrightarrow>
         trace (close (snd (connection_loop env request_count s))) =
           trace s @ [Ev_settimeout 30, Ev_recv 8192, Ev_close])"
proof (intro conjI impI)
  obtain evs ka where it:
    "trace (snd (iteration env request_count s)) = trace s @ Ev_settimeout 30 # Ev_recv 8192 # evs"
    "list_all (allowed ka) evs"
    using iteration_shape [of env request_count s] by auto
  then have "list_all io_event evs" by (auto simp: list_all_iff intro: allowed_io)
  with it(1) show "\<exists>evs. trace (snd (iteration env request_count s)) = trace s @ evs \<and> recvs evs = [8192]"
    by (intro exI [of _ "Ev_settimeout 30 # Ev_recv 8192 # evs"]) (simp add: recvs_io)
next
  assume "recv_oracle env (tick s) = Recv_text d \<and> d \<noteq> []"
  then show "iteration env request_count s
           = on_exception env (process_request env (request_count + 1) d (after_recv s))"
    by (simp add: iteration_cases)
next
  assume a: "recv_oracle env (tick s) = Recv_undecodable
         \<or> (recv_oracle env (tick s) = Recv_text d \<and> d \<noteq> [] \<and> \<not> contains CRLF2 d)"
  have "\<not> contains CRLF2 d \<Longrightarrow> \<exists>e. parse_request d = Inl e"
    by (simp add: parse_request_fails)
  with a assms show "trace (close (snd (connection_loop env request_count s))) =
           trace s @ [Ev_settimeout 30, Ev_recv 8192,
                      Ev_send (error_response 500 ''Internal Server Error'' False []), Ev_close]"
    by (intro fatal_trace [where d = d]) auto
next
  assume "recv_oracle env (tick s) = Recv_text []"
  with assms show "trace (close (snd (connection_loop env request_count s))) =
           trace s @ [Ev_settimeout 30, Ev_recv 8192, Ev_close]"
    by (rule empty_read_trace)
qed

text \<open>
  Bytes that are not UTF-8 and the text \<open>hello\<close> are answered with the 500 response;
  after an empty read the socket is closed and nothing is sent.
\<close>

theorem one_read_per_iteration_witness:
  "(0::nat) < 100
   \<and> recv_oracle undecodable_env (tick demo_state) = Recv_undecodable
   \<and> trace (close (snd (connection_loop undecodable_env 0 demo_state))) =
       [Ev_settimeout 30, Ev_recv 8192,
        Ev_send (error_response 500 ''Internal Server Error'' False []), Ev_close]
   \<and> recv_oracle garbage_env (tick demo_state) = Recv_text ''hello''
   \<and> ''hello'' \<noteq> [] \<and> \<not> contains CRLF2 ''hello''
   \<and> trace (close (snd (connection_loop garbage_env 0 demo_state))) =
       [Ev_settimeout 30, Ev_recv 8192,
        Ev_send (error_response 500 ''Internal Server Error'' False []), Ev_close]
   \<and> recv_oracle hung_up_env (tick demo_state) = Recv_text []
   \<and> trace (close (snd (connection_loop hung_up_env 0 demo_state))) =
       [Ev_settimeout 30, Ev_recv 8192, Ev_close]"
  using one_read_per_iteration [of 0 undecodable_env demo_state "[]"]
    one_read_per_iteration [of 0 garbage_env demo_state "''hello''"]
    one_read_per_iteration [of 0 hung_up_env demo_state "[]"]
  by (simp add: undecodable_env_def garbage_env_def hung_up_env_def demo_env_def demo_state_def
        CRLF2_def CR_def LF_def)

text \<open>
  The claim as stated sends every request whose head and body did not arrive in the one read
  to that path. A POST whose head has arrived and whose body has arrived in part is
  answered from what has arrived: here with 415, and the 500 path is not taken.
\<close>

theorem truncated_body_is_answered_counterexample:
  "trace (handle_connection truncated_env demo_state) =
     [Ev_settimeout 30, Ev_recv 8192,
      Ev_send (error_response 415 ''Unsupported Media Type'' False []), Ev_close]"
proof -
  let ?s1 = "after_recv demo_state"
  let ?req = "\<lparr>req_method = ''POST'', req_path = ''/upload'', req_version = ''HTTP/1.0'',
          req_headers = [''host'' \<mapsto> ''127.0.0.1:8080'', ''content-type'' \<mapsto> ''text/plain'',
                         ''content-length'' \<mapsto> ''10''],
          req_body = ''hello''\<rparr>"
  have ka: "\<not> should_keep_alive ?req 1"
    by (simp add: should_keep_alive_def decide_keep_alive_def header_get_def suffix_to_prefix lower_def)
  have "respond truncated_env 1 ?req ?s1
          = (Inr Break, advance (emit (Ev_send (error_response 415 ''Unsupported Media Type'' False [])) ?s1))"
    using ka demo_address
    by (simp add: respond_def truncated_env_def post_not_json header_get_def after_response_def
          send_error_def sendall_def demo_env_def)
  then have "iteration truncated_env 0 demo_state
          = (Inr Break, advance (emit (Ev_send (error_response 415 ''Unsupported Media Type'' False [])) ?s1))"
    by (simp add: iteration_cases truncated_env_def post_text_request_def [symmetric]
          process_request_def parse_post_text on_exception_ok)
       (simp add: post_text_request_def)
  then show ?thesis
    by (simp add: handle_connection_eq loop_stops demo_state_def)
qed

section \<open>The socket is closed\<close>

text \<open>
  C10. The handler returns for every environment and state (the loop is a total function),
  and what it adds to the trace ends with \<open>close\<close>, the only \<open>close\<close> it makes:
  whatever the reads, the sends and the file system answer.
\<close>

theorem socket_closed_when_handler_returns:
  "\<exists>evs. trace (handle_connection env s) = trace s @ evs @ [Ev_close] \<and> Ev_close \<notin> set evs"
  using closed_on_return [of env s] by blast

section \<open>Headers of the error responses\<close>

text \<open>
  C7 fails on the code: \<open>send_error\<close> writes neither a \<open>Date\<close> nor a \<open>Server\<close>
  header, which the two success responses do write. The response to a GET for a missing
  file, and the 503 response of the acceptor, contain neither.
\<close>

theorem error_responses_lack_date_and_server:
  "sends (trace (handle_connection absent_env demo_state)) = [error_response 404 ''Not Found'' False []]
   \<and> \<not> contains ''Date:'' (error_response 404 ''Not Found'' False [])
   \<and> \<not> contains ''Server:'' (error_response 404 ''Not Found'' False [])
   \<and> \<not> contains ''Date:'' (error_response 503 ''Service Unavailable'' False [(''Retry-After'', ''10'')])
   \<and> \<not> contains ''Server:'' (error_response 503 ''Service Unavailable'' False [(''Retry-After'', ''10'')])"
proof -
  let ?s1 = "after_recv demo_state"
  let ?req = "\<lparr>req_method = ''GET'', req_path = ''/absent.html'', req_version = ''HTTP/1.0'',
          req_headers = [''host'' \<mapsto> ''127.0.0.1:8080''], req_body = []\<rparr>"
  have ka: "\<not> should_keep_alive ?req 1"
    by (simp add: should_keep_alive_def decide_keep_alive_def header_get_def suffix_to_prefix lower_def)
  have get: "serve_get_request absent_env ''/absent.html'' False ?s1
          = send_error absent_env 404 ''Not Found'' False []
              (emit (Ev_open_rb ''resources/absent.html'') ?s1)"
    using get_missing [of "''/absent.html''" ?s1 absent_env False]
    by (simp add: served_path_def after_recv_def settimeout_def demo_state_def)
  have env: "HOST absent_env @ '':'' @ show_nat (PORT absent_env) = ''127.0.0.1:8080''"
    "\<And>k. send_oracle absent_env k = Send_ok"
    using demo_address by (simp_all add: absent_env_def demo_env_def)
  have "respond absent_env 1 ?req ?s1
          = (Inr Break, advance (emit (Ev_send (error_response 404 ''Not Found'' False []))
                                   (emit (Ev_open_rb ''resources/absent.html'') ?s1)))"
    using ka env by (simp add: respond_def get after_response_def send_error_def sendall_def)
  then have "iteration absent_env 0 demo_state
          = (Inr Break, advance (emit (Ev_send (error_response 404 ''Not Found'' False []))
                                   (emit (Ev_open_rb ''resources/absent.html'') ?s1)))"
    by (simp add: iteration_cases absent_env_def process_request_def parse_get_absent on_exception_ok)
       (simp add: get_absent_request_def)
  then have "sends (trace (handle_connection absent_env demo_state)) = [error_response 404 ''Not Found'' False []]"
    by (simp add: handle_connection_eq loop_stops demo_state_def)
  moreover have "\<not> contains ''Date:'' (error_response 404 ''Not Found'' False [])"
    "\<not> contains ''Server:'' (error_response 404 ''Not Found'' False [])"
    by (simp_all add: error_404_bytes CRLF_def CRLF2_def CR_def LF_def)
  moreover have "\<not> contains ''Date:'' (error_response 503 ''Service Unavailable'' False [(''Retry-After'', ''10'')])"
    "\<not> contains ''Server:'' (error_response 503 ''Service Unavailable'' False [(''Retry-After'', ''10'')])"
    by (simp_all add: error_503_bytes CRLF_def CRLF2_def CR_def LF_def)
  ultimately show ?thesis by simp
qed

section \<open>The saturated queue\<close>

text \<open>
  C3 fails on the code when the send of the 503 response raises: the queue holds 50
  connections, the peer has reset the connection, \<open>sendall\<close> raises inside the
  \<open>except queue.Full\<close> clause, and the exception leaves \<open>main\<close> before
  \<open>client_socket.close()\<close> is reached. The trace holds the send and no close.
\<close>

theorem saturated_reject_without_close:
  "fst (accept_connection reset_env (replicate 50 (0::nat)) 1 demo_state) = Inl OSError
   \<and> trace (snd (accept_connection reset_env (replicate 50 (0::nat)) 1 demo_state))
       = [Ev_send (error_response 503 ''Service Unavailable'' False [(''Retry-After'', ''10'')])]"
  by (simp add: accept_at_capacity MAX_QUEUE_SIZE_def reset_env_def demo_env_def demo_state_def)

section \<open>Unsupported extensions\<close>

text \<open>
  C6, as the code has it. For a GET whose path (after \<open>/\<close> has been replaced) has no
  \<open>..\<close> and does not end in \<open>.html\<close>, \<open>.txt\<close>, \<open>.png\<close>, \<open>.jpg\<close> or
  \<open>.jpeg\<close>, the handler opens and reads the file first. If the file is there it sends
  the 415 response and not the content; if there is no such file it sends the 404 response;
  if the path is there and cannot be opened (a directory, an unreadable file), the handler
  sends nothing, the exception leaves it, and the \<open>except Exception\<close> clause of the loop
  sends the 500 response and leaves the loop.
\<close>

theorem unsupported_extension_after_read:
  assumes "\<not> contains ''..'' (served_path p)"
    and "\<not> (suffix ''.html'' (served_path p) \<or> suffix ''.txt'' (served_path p)
            \<or> suffix ''.png'' (served_path p) \<or> suffix ''.jpg'' (served_path p)
            \<or> suffix ''.jpeg'' (served_path p))"
  shows "(files s (''resources'' @ served_path p) = Content c \<longrightarrow>
            trace (snd (serve_get_request env p ka s)) =
              trace s @ [Ev_open_rb (''resources'' @ served_path p),
                         Ev_send (error_response 415 ''Unsupported Media Type'' False [])])
       \<and> (files s (''resources'' @ served_path p) = Missing \<longrightarrow>
            trace (snd (serve_get_request env p ka s)) =
              trace s @ [Ev_open_rb (''resources'' @ served_path p),
                         Ev_send (error_response 404 ''Not Found'' False [])])
       \<and> (files s (''resources'' @ served_path p) = Denied \<longrightarrow>
            serve_get_request env p ka s =
              (Inl OSError, emit (Ev_open_rb (''resources'' @ served_path p)) s)
            \<and> trace (snd (on_exception env (after_response ka (serve_get_request env p ka s)))) =
                trace s @ [Ev_open_rb (''resources'' @ served_path p),
                           Ev_send (error_response 500 ''Internal Server Error'' False [])]
            \<and> fst (on_exception env (after_response ka (serve_get_request env p ka s)))
                \<noteq> Inr Continue)"
  using assms by (rule unsupported_after_open)

text \<open>
  The file \<open>/notes.md\<close>, which exists, is opened and answered with 415; the directory
  \<open>/uploads\<close> is opened and answered with 500 by the loop.
\<close>

theorem unsupported_extension_after_read_witness:
  "\<not> contains ''..'' (served_path ''/notes.md'')
   \<and> \<not> (suffix ''.html'' (served_path ''/notes.md'') \<or> suffix ''.txt'' (served_path ''/notes.md'')
          \<or> suffix ''.png'' (served_path ''/notes.md'') \<or> suffix ''.jpg'' (served_path ''/notes.md'')
          \<or> suffix ''.jpeg'' (served_path ''/notes.md''))
   \<and> files demo_state (''resources'' @ served_path ''/notes.md'') = Content ''# notes''
   \<and> trace (snd (serve_get_request demo_env ''/notes.md'' True demo_state)) =
        [Ev_open_rb ''resources/notes.md'',
         Ev_send (error_response 415 ''Unsupported Media Type'' False [])]
   \<and> \<not> contains ''..'' (served_path ''/uploads'')
   \<and> \<not> (suffix ''.html'' (served_path ''/uploads'') \<or> suffix ''.txt'' (served_path ''/uploads'')
          \<or> suffix ''.png'' (served_path ''/uploads'') \<or> suffix ''.jpg'' (served_path ''/uploads'')
          \<or> suffix ''.jpeg'' (served_path ''/uploads''))
   \<and> files directory_state (''resources'' @ served_path ''/uploads'') = Denied
   \<and> trace (snd (on_exception demo_env
                     (after_response True (serve_get_request demo_env ''/uploads'' True directory_state)))) =
        [Ev_open_rb ''resources/uploads'',
         Ev_send (error_response 500 ''Internal Server Error'' False [])]"
proof -
  have n: "\<not> contains ''..'' (served_path ''/notes.md'')"
    "\<not> (suffix ''.html'' (served_path ''/notes.md'') \<or> suffix ''.txt'' (served_path ''/notes.md'')
          \<or> suffix ''.png'' (served_path ''/notes.md'') \<or> suffix ''.jpg'' (served_path ''/notes.md'')
          \<or> suffix ''.jpeg'' (served_path ''/notes.md''))"
    "files demo_state (''resources'' @ served_path ''/notes.md'') = Content ''# notes''"
    by (simp_all add: served_path_def demo_state_def suffix_to_prefix)
  have u: "\<not> contains ''..'' (served_path ''/uploads'')"
    "\<not> (suffix ''.html'' (served_path ''/uploads'') \<or> suffix ''.txt'' (served_path ''/uploads'')
          \<or> suffix ''.png'' (served_path ''/uploads'') \<or> suffix ''.jpg'' (served_path ''/uploads'')
          \<or> suffix ''.jpeg'' (served_path ''/uploads''))"
    "files directory_state (''resources'' @ served_path ''/uploads'') = Denied"
    by (simp_all add: served_path_def directory_state_def demo_state_def suffix_to_prefix)
  have e: "trace demo_state = []" "trace directory_state = []"
    by (simp_all add: directory_state_def demo_state_def)
  from unsupported_extension_after_read [OF n(1,2), of demo_state "''# notes''" demo_env True] n(3)
  have "trace (snd (serve_get_request demo_env ''/notes.md'' True demo_state)) =
          trace demo_state @ [Ev_open_rb (''resources'' @ served_path ''/notes.md''),
                              Ev_send (error_response 415 ''Unsupported Media Type'' False [])]"
    by blast
  then have a: "trace (snd (serve_get_request demo_env ''/notes.md'' True demo_state)) =
        [Ev_open_rb ''resources/notes.md'',
         Ev_send (error_response 415 ''Unsupported Media Type'' False [])]"
    using e(1) by (simp add: served_path_def)
  from unsupported_extension_after_read [OF u(1,2), of directory_state "[]" demo_env True] u(3)
  have "trace (snd (on_exception demo_env
                     (after_response True (serve_get_request demo_env ''/uploads'' True directory_state)))) =
          trace directory_state @ [Ev_open_rb (''resources'' @ served_path ''/uploads''),
                                   Ev_send (error_response 500 ''Internal Server Error'' False [])]"
    by blast
  then have b: "trace (snd (on_exception demo_env
                     (after_response True (serve_get_request demo_env ''/uploads'' True directory_state)))) =
        [Ev_open_rb ''resources/uploads'',
         Ev_send (error_response 500 ''Internal Server Error'' False [])]"
    using e(2) by (simp add: served_path_def)
  from n u a b show ?thesis by blast
qed

text \<open>
  The claim as stated has the file never opened and the answer always 415: for
  \<open>/notes.md\<close>, which exists, the file is opened; for \<open>/absent.md\<close>, which does not,
  the answer is 404; for \<open>/uploads\<close>, a directory, the path is opened, the handler sends
  nothing and \<open>open\<close> raises.
\<close>

theorem unsupported_extension_reads_first_counterexample:
  "opens (trace (snd (serve_get_request demo_env ''/notes.md'' False demo_state)))
     = [''resources/notes.md'']
   \<and> sends (trace (snd (serve_get_request demo_env ''/absent.md'' False demo_state)))
     = [error_response 404 ''Not Found'' False []]
   \<and> opens (trace (snd (serve_get_request demo_env ''/uploads'' False directory_state)))
     = [''resources/uploads'']
   \<and> sends (trace (snd (serve_get_request demo_env ''/uploads'' False directory_state))) = []
   \<and> fst (serve_get_request demo_env ''/uploads'' False directory_state) = Inl OSError"
proof -
  have a: "files demo_state (''resources'' @ served_path ''/notes.md'') = Content ''# notes''"
    "files demo_state (''resources'' @ served_path ''/absent.md'') = Missing"
    "trace demo_state = []"
    by (simp_all add: served_path_def demo_state_def)
  have "trace (snd (serve_get_request demo_env ''/notes.md'' False demo_state)) =
          trace demo_state @ [Ev_open_rb (''resources'' @ served_path ''/notes.md''),
             Ev_send (error_response 415 ''Unsupported Media Type'' False [])]"
    using unsupported_after_read [of "''/notes.md''" demo_state "''# notes''" demo_env False] a(1)
    by (simp add: served_path_def suffix_to_prefix)
  moreover have "trace (snd (serve_get_request demo_env ''/absent.md'' False demo_state)) =
          trace demo_state @ [Ev_open_rb (''resources'' @ served_path ''/absent.md''),
             Ev_send (error_response 404 ''Not Found'' False [])]"
    using unsupported_after_read [of "''/absent.md''" demo_state "[]" demo_env False] a(2)
    by (simp add: served_path_def suffix_to_prefix)
  ultimately show ?thesis using a(3) directory_unopenable by (simp add: served_path_def)
qed

section \<open>Generated upload names\<close>

text \<open>
  C8, as the code has it. Two POST requests with a JSON content type and the same valid JSON
  body, whose file can be written and whose response can be sent, each send one 201 response
  whose JSON body has a \<open>filepath\<close> member naming the generated file; the two file names
  are equal exactly when the two clock readings (to the second) and the two random suffixes
  are equal, so they differ as soon as one of them differs.
\<close>

theorem upload_filepaths_equal_iff_stamp_and_draw_equal:
  assumes "prefix ''application/json'' (header_get h1 ''content-type'' [])"
    and "prefix ''application/json'' (header_get h2 ''content-type'' [])"
    and "json_loads env1 body = Json_value j1"
    and "json_loads env2 body = Json_value j2"
    and "files s1 (''resources/uploads/'' @ generated_filename env1 s1) \<noteq> Denied"
    and "files s2 (''resources/uploads/'' @ generated_filename env2 s2) \<noteq> Denied"
    and "send_oracle env1 (tick s1 + 3) = Send_ok"
    and "send_oracle env2 (tick s2 + 3) = Send_ok"
  shows "sends (trace (snd (serve_post_request env1 h1 body ka1 s1))) =
           sends (trace s1) @ [post_response (generated_filename env1 s1) (date_oracle env1 (tick s1 + 2)) ka1]
       \<and> sends (trace (snd (serve_post_request env2 h2 body ka2 s2))) =
           sends (trace s2) @ [post_response (generated_filename env2 s2) (date_oracle env2 (tick s2 + 2)) ka2]
       \<and> prefix ''HTTP/1.1 201 Created''
            (post_response (generated_filename env1 s1) (date_oracle env1 (tick s1 + 2)) ka1)
       \<and> prefix ''HTTP/1.1 201 Created''
            (post_response (generated_filename env2 s2) (date_oracle env2 (tick s2 + 2)) ka2)
       \<and> contains (json_quote ''filepath'' @ '': '' @ json_quote (''/uploads/'' @ generated_filename env1 s1))
            (post_response (generated_filename env1 s1) (date_oracle env1 (tick s1 + 2)) ka1)
       \<and> contains (json_quote ''filepath'' @ '': '' @ json_quote (''/uploads/'' @ generated_filename env2 s2))
            (post_response (generated_filename env2 s2) (date_oracle env2 (tick s2 + 2)) ka2)
       \<and> (generated_filename env1 s1 = generated_filename env2 s2 \<longleftrightarrow>
            stamp_oracle env1 (tick s1) = stamp_oracle env2 (tick s2)
            \<and> random_id env1 s1 = random_id env2 s2)"
  using assms by (rule two_posts)

theorem upload_filepaths_equal_iff_stamp_and_draw_equal_witness:
  "prefix ''application/json'' (header_get [''content-type'' \<mapsto> ''application/json''] ''content-type'' [])
   \<and> json_loads demo_env ''{}'' = Json_value ()
   \<and> json_loads later_env ''{}'' = Json_value ()
   \<and> files demo_state (''resources/uploads/'' @ generated_filename demo_env demo_state) \<noteq> Denied
   \<and> files demo_state (''resources/uploads/'' @ generated_filename later_env demo_state) \<noteq> Denied
   \<and> send_oracle demo_env (tick demo_state + 3) = Send_ok
   \<and> send_oracle later_env (tick demo_state + 3) = Send_ok
   \<and> stamp_oracle demo_env (tick demo_state) \<noteq> stamp_oracle later_env (tick demo_state)
   \<and> generated_filename demo_env demo_state \<noteq> generated_filename later_env demo_state"
proof -
  have h: "prefix ''application/json'' (header_get [''content-type'' \<mapsto> ''application/json''] ''content-type'' [])"
    by (simp add: header_get_def)
  have j: "json_loads demo_env ''{}'' = Json_value ()" "json_loads later_env ''{}'' = Json_value ()"
    by (simp_all add: demo_env_def later_env_def)
  have f: "files demo_state (''resources/uploads/'' @ generated_filename demo_env demo_state) \<noteq> Denied"
    "files demo_state (''resources/uploads/'' @ generated_filename later_env demo_state) \<noteq> Denied"
    by (simp_all add: demo_state_def)
  have o: "send_oracle demo_env (tick demo_state + 3) = Send_ok"
    "send_oracle later_env (tick demo_state + 3) = Send_ok"
    by (simp_all add: demo_env_def later_env_def)
  have d: "stamp_oracle demo_env (tick demo_state) \<noteq> stamp_oracle later_env (tick demo_state)"
    by (simp add: demo_env_def later_env_def)
  from upload_filepaths_equal_iff_stamp_and_draw_equal [OF h h j f o, of True True] d
  have "generated_filename demo_env demo_state \<noteq> generated_filename later_env demo_state"
    by blast
  with h j f o d show ?thesis by blast
qed

text \<open>
  The claim as stated has the two names never equal: two connections that POST \<open>{}\<close>
  within the same second, with the same four draws, get the same \<open>filepath\<close>.
\<close>

theorem same_second_same_draw_same_filepath_counterexample:
  "sends (trace (handle_connection post_env (handle_connection post_env demo_state))) =
     [post_response ''upload_20240101_000000_aaaa.json'' ''Mon, 01 Jan 2024 00:00:00 GMT'' False,
      post_response ''upload_20240101_000000_aaaa.json'' ''Mon, 01 Jan 2024 00:00:00 GMT'' False]"
proof -
  have nd: "\<And>p. files demo_state p \<noteq> Denied" by (simp add: demo_state_def)
  note first = post_env_run [of demo_state, OF nd]
  note second = post_env_run [of "handle_connection post_env demo_state", OF first(2)]
  show ?thesis unfolding second(1) first(1) by (simp add: demo_state_def)
qed

section \<open>Keep-alive on HTTP/1.1\<close>

text \<open>
  C5, as the code has it. When a read returns a request that parses, whose version ends in
  \<open>/1.1\<close>, whose \<open>Connection\<close> header is absent or, lower-cased, is not \<open>close\<close>,
  and which is not the 100th of its connection, the flag is on and at least one response is
  sent. Every response sent for the request, the 500 of the \<open>except\<close> clause included,
  either has a \<open>Connection: keep-alive\<close> header or is one of the five error responses
  the code always sends with \<open>Connection: close\<close>. Every response with status 200, 201
  or 405 has the header; and when the Host check fails, its 400 or 403 response has the
  header and is the first response sent, followed by nothing or by the 500 response.
\<close>

theorem keep_alive_header_on_http11:
  assumes "recv_oracle env (tick s) = Recv_text request_data"
    and "parse_request request_data = Inr req"
    and "suffix ''/1.1'' (req_version req)"
    and "lower (header_get (req_headers req) ''connection'' []) \<noteq> ''close''"
    and "request_count < 99"
  shows "should_keep_alive req (request_count + 1)
       \<and> (\<exists>evs. trace (snd (iteration env request_count s))
                  = trace s @ [Ev_settimeout 30, Ev_recv 8192] @ evs
             \<and> sends evs \<noteq> []
             \<and> list_all (\<lambda>r. says_keep_alive r \<or> r \<in> set forced_close_errors) (sends evs)
             \<and> list_all (\<lambda>r. status_is 200 r \<or> status_is 201 r \<or> status_is 405 r
                              \<longrightarrow> says_keep_alive r) (sends evs)
             \<and> (req_headers req ''host'' \<noteq> Some (HOST env @ '':'' @ show_nat (PORT env))
                  \<longrightarrow> (\<exists>r. says_keep_alive r
                         \<and> (sends evs = [r]
                            \<or> sends evs = [r, error_response 500 ''Internal Server Error'' False []]))))"
  using assms by (rule keep_alive_answers)

text \<open>
  The first GET for \<open>/\<close> over HTTP/1.1 is answered with one response, of status 200,
  which has the \<open>Connection: keep-alive\<close> header.
\<close>

theorem keep_alive_header_on_http11_witness:
  "recv_oracle keep_alive_env (tick demo_state) = Recv_text get_index_request
   \<and> parse_request get_index_request =
     Inr \<lparr>req_method = ''GET'', req_path = ''/'', req_version = ''HTTP/1.1'',
          req_headers = [''host'' \<mapsto> ''127.0.0.1:8080''], req_body = []\<rparr>
   \<and> suffix ''/1.1'' ''HTTP/1.1''
   \<and> lower (header_get [''host'' \<mapsto> ''127.0.0.1:8080''] ''connection'' []) \<noteq> ''close''
   \<and> (0::nat) < 99
   \<and> sends (trace (snd (iteration keep_alive_env 0 demo_state))) = [index_response True]
   \<and> status_is 200 (index_response True)
   \<and> says_keep_alive (index_response True)"
proof -
  let ?req = "\<lparr>req_method = ''GET'', req_path = ''/'', req_version = ''HTTP/1.1'',
          req_headers = [''host'' \<mapsto> ''127.0.0.1:8080''], req_body = []\<rparr>"
  have r: "recv_oracle keep_alive_env (tick demo_state) = Recv_text get_index_request"
    by (simp add: keep_alive_env_def)
  have v: "suffix ''/1.1'' (req_version ?req)" by (simp add: suffix_to_prefix)
  have c: "lower (header_get (req_headers ?req) ''connection'' []) \<noteq> ''close''"
    by (simp add: header_get_def lower_def)
  have n: "(0::nat) < 99" by simp
  have f: "files demo_state ''resources/index.html'' = Content ''<p>hi</p>''"
    by (simp add: demo_state_def)
  have t: "trace (snd (iteration keep_alive_env 0 demo_state)) =
           trace demo_state @ [Ev_settimeout 30, Ev_recv 8192, Ev_open_rb ''resources/index.html'',
                      Ev_send (index_response True)]"
    using keep_alive_iteration(2) [OF f, of 0] by simp
  have st: "status_is 200 (index_response True)" by (rule index_response_status)
  from keep_alive_header_on_http11 [OF r parse_get_index v c n]
  obtain evs where evs:
    "trace (snd (iteration keep_alive_env 0 demo_state)) = trace demo_state @ [Ev_settimeout 30, Ev_recv 8192] @ evs"
    "list_all (\<lambda>r. status_is 200 r \<or> status_is 201 r \<or> status_is 405 r \<longrightarrow> says_keep_alive r) (sends evs)"
    by blast
  from evs(1) t have "evs = [Ev_open_rb ''resources/index.html'', Ev_send (index_response True)]"
    by simp
  then have "sends evs = [index_response True]" by simp
  with evs(2) st have "says_keep_alive (index_response True)" by simp
  moreover from t have "sends (trace (snd (iteration keep_alive_env 0 demo_state))) = [index_response True]"
    by (simp add: demo_state_def)
  ultimately show ?thesis using r parse_get_index v c st by simp
qed

text \<open>
  The claim as stated gives every such request a keep-alive response. Of 100 identical GET
  requests for \<open>/\<close> over HTTP/1.1 with no \<open>Connection\<close> header, the first 99 are
  answered with keep-alive and the 100th, a 200 response, with \<open>Connection: close\<close>. And
  the first request of a connection, a GET over HTTP/1.1 for a file that does not exist, is
  answered with the 404 response, which has no keep-alive header, although the handler then
  reads again.
\<close>

theorem close_on_hundredth_request_and_on_404_counterexample:
  "parse_request get_index_request =
     Inr \<lparr>req_method = ''GET'', req_path = ''/'', req_version = ''HTTP/1.1'',
          req_headers = [''host'' \<mapsto> ''127.0.0.1:8080''], req_body = []\<rparr>
   \<and> sends (trace (handle_connection keep_alive_env demo_state)) =
       replicate 99 (index_response True) @ [index_response False]
   \<and> status_is 200 (index_response False)
   \<and> \<not> says_keep_alive (index_response False)
   \<and> parse_request get_absent_http11_request =
     Inr \<lparr>req_method = ''GET'', req_path = ''/absent.html'', req_version = ''HTTP/1.1'',
          req_headers = [''host'' \<mapsto> ''127.0.0.1:8080''], req_body = []\<rparr>
   \<and> trace (handle_connection absent_http11_env demo_state) =
       [Ev_settimeout 30, Ev_recv 8192, Ev_open_rb ''resources/absent.html'',
        Ev_send (error_response 404 ''Not Found'' False []),
        Ev_settimeout 30, Ev_recv 8192, Ev_close]
   \<and> \<not> says_keep_alive (error_response 404 ''Not Found'' False [])"
proof -
  have "files demo_state ''resources/index.html'' = Content ''<p>hi</p>''"
    by (simp add: demo_state_def)
  then have "sends (trace (snd (connection_loop keep_alive_env 0 demo_state))) =
           sends (trace demo_state) @ replicate 99 (index_response True) @ [index_response False]"
    by (rule keep_alive_loop) simp
  then have "sends (trace (handle_connection keep_alive_env demo_state)) =
       replicate 99 (index_response True) @ [index_response False]"
    by (simp add: handle_connection_eq demo_state_def)
  moreover have "status_is 200 (index_response False)"
    by (simp add: status_is_def status_numbers index_response_close_bytes)
  moreover have "\<not> says_keep_alive (index_response False)"
    by (simp add: says_keep_alive_def index_response_close_bytes CRLF_def CRLF2_def CR_def LF_def)
  moreover have "\<not> says_keep_alive (error_response 404 ''Not Found'' False [])"
    by (simp add: says_keep_alive_def error_404_bytes CRLF_def CRLF2_def CR_def LF_def)
  ultimately show ?thesis
    using parse_get_index parse_get_absent_http11 absent_http11_run by simp
qed

end
